theory Spec2Isabelle
  imports Main "HOL-Library.AList" "HOL-Library.Sublist" "HOL-Library.Word"
begin

section \<open>The TTL object pool (pool/pool.go)\<close>

text \<open>
  Instants (\<^verbatim>\<open>time.Time\<close>) and durations (\<^verbatim>\<open>time.Duration\<close>) are integers counting
  nanoseconds; every operation that reads \<^verbatim>\<open>time.Now()\<close> takes the reading as its first
  argument. A \<^verbatim>\<open>Poolable\<close> is an interface value holding a pointer: it is modelled by the
  identity of the object it points to.
\<close>

type_synonym Time = int
type_synonym Duration = int
type_synonym Poolable = nat

record ObjectConfig =
  AliveFor :: Duration

record Object =
  expiresAt :: Time
  handle :: Poolable
  config :: ObjectConfig

text \<open>
  \<^verbatim>\<open>sync.Map\<close> is an association list: \<^verbatim>\<open>Store\<close> overwrites the entry of a key in place
  or appends a new one, \<^verbatim>\<open>Load\<close> reads the entry of a key, \<^verbatim>\<open>Delete\<close> removes it, and
  \<^verbatim>\<open>Range\<close> visits the entries in the order of the list (Go leaves that order open).
\<close>

type_synonym 'v SyncMap = "(string \<times> 'v) list"

definition Store :: "string \<Rightarrow> 'v \<Rightarrow> 'v SyncMap \<Rightarrow> 'v SyncMap" where
  "Store key v m = AList.update key v m"

definition Load :: "'v SyncMap \<Rightarrow> string \<Rightarrow> 'v option" where
  "Load m key = map_of m key"

definition Delete :: "string \<Rightarrow> 'v SyncMap \<Rightarrow> 'v SyncMap" where
  "Delete key m = AList.delete key m"

text \<open>
  The pool is its \<^verbatim>\<open>objects\<close> map. The handles live outside the pool; what the pool does
  to them is recorded in \<open>closeCalls\<close>, the sequence of \<^verbatim>\<open>Close\<close> invocations so far.
\<close>

record Pool =
  objects :: "Object SyncMap"
  closeCalls :: "Poolable list"

definition NewPool :: Pool where
  "NewPool = \<lparr>objects = [], closeCalls = []\<rparr>"

definition Add :: "Time \<Rightarrow> string \<Rightarrow> Poolable \<Rightarrow> ObjectConfig \<Rightarrow> Pool \<Rightarrow> Pool" where
  "Add now key val cfg p =
     (let newExpTime = now + AliveFor cfg;
          obj = \<lparr>expiresAt = newExpTime, handle = val, config = cfg\<rparr>
      in p\<lparr>objects := Store key obj (objects p)\<rparr>)"

definition getObject :: "Pool \<Rightarrow> string \<Rightarrow> Object option" where
  "getObject p key = Load (objects p) key"

definition Get :: "Pool \<Rightarrow> string \<Rightarrow> Poolable option" where
  "Get p key = (case getObject p key of None \<Rightarrow> None | Some obj \<Rightarrow> Some (handle obj))"

text \<open>
  \<^verbatim>\<open>GetAndRenew\<close> swaps the \<^verbatim>\<open>expiresAt\<close> pointer of the object the map holds; the
  entry keeps its place in the map. It returns the handle and the pool after the swap.
\<close>

definition GetAndRenew :: "Time \<Rightarrow> Pool \<Rightarrow> string \<Rightarrow> Poolable option \<times> Pool" where
  "GetAndRenew now p key =
     (case getObject p key of
        None \<Rightarrow> (None, p)
      | Some obj \<Rightarrow>
          (let newExpTime = now + AliveFor (config obj)
           in (Some (handle obj),
               p\<lparr>objects := Store key (obj\<lparr>expiresAt := newExpTime\<rparr>) (objects p)\<rparr>)))"

definition Remove :: "string \<Rightarrow> Pool \<Rightarrow> Pool" where
  "Remove key p = p\<lparr>objects := Delete key (objects p)\<rparr>"

definition Before :: "Time \<Rightarrow> Time \<Rightarrow> bool" where
  "Before t u = (t < u)"

definition Close :: "Poolable \<Rightarrow> Pool \<Rightarrow> Pool" where
  "Close h p = p\<lparr>closeCalls := closeCalls p @ [h]\<rparr>"

text \<open>The first loop of \<^verbatim>\<open>Gc\<close>: the callback given to \<^verbatim>\<open>Range\<close>, run on one entry.\<close>

definition Gc_collect :: "Time \<Rightarrow> string \<times> Object \<Rightarrow> string list \<Rightarrow> string list" where
  "Gc_collect curTime entry expired =
     (if Before (expiresAt (snd entry)) curTime then expired @ [fst entry] else expired)"

text \<open>The body of the second loop of \<^verbatim>\<open>Gc\<close>, run on one collected key.\<close>

definition Gc_sweep :: "string \<Rightarrow> Pool \<Rightarrow> Pool" where
  "Gc_sweep k p =
     (case Get p k of
        None \<Rightarrow> p
      | Some obj \<Rightarrow> Close obj (p\<lparr>objects := Delete k (objects p)\<rparr>))"

definition Gc :: "Time \<Rightarrow> Pool \<Rightarrow> Pool" where
  "Gc curTime p =
     (let expired = fold (Gc_collect curTime) (objects p) []
      in fold Gc_sweep expired p)"

text \<open>A caller's history: the operations of the pool, each with its clock reading.\<close>

datatype PoolOp =
    OpAdd Time string Poolable ObjectConfig
  | OpGet string
  | OpGetAndRenew Time string
  | OpRemove string
  | OpGc Time

fun isGc :: "PoolOp \<Rightarrow> bool" where
  "isGc (OpGc _) = True"
| "isGc _ = False"

fun runOp :: "PoolOp \<Rightarrow> Pool \<Rightarrow> Pool" where
  "runOp (OpAdd now key val cfg) p = Add now key val cfg p"
| "runOp (OpGet key) p = p"
| "runOp (OpGetAndRenew now key) p = snd (GetAndRenew now p key)"
| "runOp (OpRemove key) p = Remove key p"
| "runOp (OpGc now) p = Gc now p"

definition runOps :: "PoolOp list \<Rightarrow> Pool \<Rightarrow> Pool" where
  "runOps ops p = fold runOp ops p"

section \<open>Addresses (network/address.go)\<close>

text \<open>
  The errors the node returns, one constructor for each place that makes one, and the two
  run-time panics the modelled code can raise.
\<close>

datatype error =
    EmptyAddress
  | UrlParseError
  | SplitHostPortError
  | ParseUintError
  | LookupHostError
  | NoAvailableAddresses
  | SelfDial
  | AlreadyEstablished
  | DialError
  | MuxError
  | SessionCloseError
  | Unreachable
  | SessionNil
  | NilDereference
  | SliceBounds

type_synonym bytes = "8 word list"

text \<open>The body of an envelope: protobuf's \<^verbatim>\<open>Any\<close>, a type URL and the encoded payload.\<close>

record Any =
  TypeUrl :: string
  Value :: bytes

text \<open>
  The library calls whose results the node only consumes are the fields of an environment:
  \<^verbatim>\<open>strings.TrimSpace\<close>; \<^verbatim>\<open>url.Parse\<close> (the scheme and the host of the URL it returns),
  \<^verbatim>\<open>net.SplitHostPort\<close> and \<^verbatim>\<open>strconv.ParseUint\<close> in base 10 on 16 bits, each \<open>None\<close>
  when the call returns an error; \<^verbatim>\<open>net.ParseIP\<close> (whether the result is not nil);
  \<^verbatim>\<open>net.LookupHost\<close>; \<^verbatim>\<open>ptypes.UnmarshalAny\<close> (the name of the Go type of the decoded
  message and the message); and the duration \<^verbatim>\<open>backoff.Backoff\<close> gives for an attempt.
  The theorems hold for every environment.
\<close>

record Env =
  TrimSpace :: "string \<Rightarrow> string"
  url_Parse :: "string \<Rightarrow> (string \<times> string) option"
  SplitHostPort :: "string \<Rightarrow> (string \<times> string) option"
  ParseUint :: "string \<Rightarrow> nat option"
  ParseIP :: "string \<Rightarrow> bool"
  LookupHost :: "string \<Rightarrow> string list option"
  UnmarshalAny :: "Any \<Rightarrow> (string \<times> bytes) option"
  ForAttempt :: "nat \<Rightarrow> Duration"

record AddressInfo =
  Protocol :: string
  Host :: string
  Port :: "16 word"

text \<open>\<^verbatim>\<open>strconv.Itoa\<close>: the decimal digits of an integer, most significant first.\<close>

definition digit :: "nat \<Rightarrow> char" where
  "digit d = char_of (48 + d)"

function utoa :: "nat \<Rightarrow> string" where
  "utoa n = (if n < 10 then [digit n] else utoa (n div 10) @ [digit (n mod 10)])"
  by pat_completeness auto
termination
  by (relation "measure id") auto

declare utoa.simps [simp del]

definition Itoa :: "int \<Rightarrow> string" where
  "Itoa i = (if i < 0 then CHR ''-'' # utoa (nat (- i)) else utoa (nat i))"

text \<open>\<^verbatim>\<open>net.JoinHostPort\<close>: a host with a colon in it is put in brackets.\<close>

definition JoinHostPort :: "string \<Rightarrow> string \<Rightarrow> string" where
  "JoinHostPort host port =
     (if CHR '':'' \<in> set host then ''['' @ host @ '']:'' @ port else host @ '':'' @ port)"

definition AddressInfo_String :: "AddressInfo \<Rightarrow> string" where
  "AddressInfo_String info =
     (let address = JoinHostPort (Host info) (Itoa (uint (Port info)))
      in if length (Protocol info) > 0 then Protocol info @ ''://'' @ address else address)"

definition ParseAddress :: "Env \<Rightarrow> string \<Rightarrow> error + AddressInfo" where
  "ParseAddress env address =
     (case url_Parse env address of
        None \<Rightarrow> Inl UrlParseError
      | Some (scheme, urlHost) \<Rightarrow>
          (case SplitHostPort env urlHost of
             None \<Rightarrow> Inl SplitHostPortError
           | Some (host, rawPort) \<Rightarrow>
               (case ParseUint env rawPort of
                  None \<Rightarrow> Inl ParseUintError
                | Some port \<Rightarrow>
                    Inr \<lparr>Protocol = scheme, Host = host, Port = of_nat port\<rparr>)))"

section \<open>Address resolution and peer filtering\<close>

type_synonym LruCache = "(string \<times> string) list"

text \<open>
  Modelled from the spec: package \<^verbatim>\<open>types/lru\<close> is not among the sources. The spec has the
  domain lookup cache as a bounded LRU of capacity 1000 from host string to resolved host
  string, which memoizes results and does not cache errors. The cache is the list of its
  entries, the most recently used first. \<open>lru_Get\<close> takes the result the loader would
  give; the loader only counts on a miss.
\<close>

definition lru_Get :: "LruCache \<Rightarrow> string \<Rightarrow> error + string \<Rightarrow> (error + string) \<times> LruCache" where
  "lru_Get cache key loaded =
     (case map_of cache key of
        Some v \<Rightarrow> (Inr v, (key, v) # AList.delete key cache)
      | None \<Rightarrow>
          (case loaded of
             Inl err \<Rightarrow> (Inl err, cache)
           | Inr v \<Rightarrow> (Inr v, take 1000 ((key, v) # cache))))"

definition ToUnifiedHost :: "Env \<Rightarrow> LruCache \<Rightarrow> string \<Rightarrow> (error + string) \<times> LruCache" where
  "ToUnifiedHost env cache host =
     lru_Get cache host
       (if \<not> ParseIP env host then
          (case LookupHost env host of
             None \<Rightarrow> Inl LookupHostError
           | Some addresses \<Rightarrow>
               if length addresses = 0 then Inl NoAvailableAddresses
               else (let host' = addresses ! 0
                     in Inr (if host' = ''::1'' then ''127.0.0.1'' else host')))
        else Inr host)"

definition ToUnifiedAddress :: "Env \<Rightarrow> LruCache \<Rightarrow> string \<Rightarrow> (error + string) \<times> LruCache" where
  "ToUnifiedAddress env cache address0 =
     (let address = TrimSpace env address0
      in if length address = 0 then (Inl EmptyAddress, cache)
         else (case ParseAddress env address of
                 Inl err \<Rightarrow> (Inl err, cache)
               | Inr info \<Rightarrow>
                   (case ToUnifiedHost env cache (Host info) of
                      (Inl err, cache') \<Rightarrow> (Inl err, cache')
                    | (Inr host, cache') \<Rightarrow>
                        (Inr (AddressInfo_String (info\<lparr>Host := host\<rparr>)), cache'))))"

text \<open>
  \<^verbatim>\<open>FilterPeers\<close>: the state of its loop is the \<^verbatim>\<open>visited\<close> set, the \<^verbatim>\<open>filtered\<close> list and
  the lookup cache; \<open>FilterPeers_step\<close> is the loop body on one candidate.
\<close>

definition FilterPeers_step ::
  "Env \<Rightarrow> string \<Rightarrow> string set \<times> string list \<times> LruCache \<Rightarrow> string set \<times> string list \<times> LruCache" where
  "FilterPeers_step env peerAddress st =
     (case st of (visited, filtered, cache) \<Rightarrow>
        if length peerAddress = 0 then (visited, filtered, cache)
        else (case ToUnifiedAddress env cache peerAddress of
                (Inl err, cache') \<Rightarrow> (visited, filtered, cache')
              | (Inr resolved, cache') \<Rightarrow>
                  if resolved \<notin> visited
                  then (insert resolved visited, filtered @ [resolved], cache')
                  else (visited, filtered, cache')))"

definition FilterPeers :: "Env \<Rightarrow> LruCache \<Rightarrow> string \<Rightarrow> string list \<Rightarrow> string list \<times> LruCache" where
  "FilterPeers env cache address peers =
     (case fold (FilterPeers_step env) peers ({address}, [], cache) of
        (visited, filtered, cache') \<Rightarrow> (filtered, cache'))"

text \<open>
  The resolved forms of a candidate list: what \<^verbatim>\<open>ToUnifiedAddress\<close> returns on each
  non-empty candidate in turn, the cache going from one call to the next; a candidate
  that is empty or fails to resolve has none.
\<close>

fun resolvedForms :: "Env \<Rightarrow> LruCache \<Rightarrow> string list \<Rightarrow> string list" where
  "resolvedForms env cache [] = []"
| "resolvedForms env cache (peerAddress # peers) =
     (if length peerAddress = 0 then resolvedForms env cache peers
      else (case ToUnifiedAddress env cache peerAddress of
              (Inl err, cache') \<Rightarrow> resolvedForms env cache' peers
            | (Inr resolved, cache') \<Rightarrow> resolved # resolvedForms env cache' peers))"

section \<open>Peers, envelopes and the state of a node\<close>

record ID =
  Address :: string
  PublicKey :: bytes

text \<open>
  Modelled from the spec: package \<^verbatim>\<open>peer\<close> is not among the sources. The spec has a peer
  ID as an address and a public key, with field-wise equality.
\<close>

definition Equals :: "ID \<Rightarrow> ID \<Rightarrow> bool" where
  "Equals a b = (Address a = Address b \<and> PublicKey a = PublicKey b)"

text \<open>
  \<^verbatim>\<open>protobuf.Message\<close>, the envelope. A message that \<^verbatim>\<open>receiveMessage\<close> returns without an
  error carries its sender.
\<close>

record Message =
  Message :: Any
  Sender :: ID
  Signature :: bytes

type_synonym RoutingTable = "ID list"

text \<open>
  Modelled from the spec: package \<^verbatim>\<open>dht\<close> is not among the sources. The spec has the
  routing table as an opaque collaborator with \<^verbatim>\<open>Update\<close>, \<^verbatim>\<open>RemovePeer\<close> and
  \<^verbatim>\<open>PeerExists\<close>; the table is the list of the peer IDs it holds, and \<^verbatim>\<open>Update\<close> puts
  an ID into it.
\<close>

definition Update :: "ID \<Rightarrow> RoutingTable \<Rightarrow> RoutingTable" where
  "Update pid rt = List.insert pid rt"

text \<open>
  Modelled from the spec: \<^verbatim>\<open>RoutingTable.RemovePeer\<close> of the absent package \<^verbatim>\<open>dht\<close> takes
  an ID out of the table.
\<close>

definition RemovePeer :: "ID \<Rightarrow> RoutingTable \<Rightarrow> RoutingTable" where
  "RemovePeer pid rt = removeAll pid rt"

text \<open>
  Modelled from the spec: \<^verbatim>\<open>RoutingTable.PeerExists\<close> of the absent package \<^verbatim>\<open>dht\<close> tells
  whether the table holds an ID.
\<close>

definition PeerExists :: "RoutingTable \<Rightarrow> ID \<Rightarrow> bool" where
  "PeerExists rt pid = (pid \<in> set rt)"

text \<open>
  Clients and sessions are objects reached through pointers: a \<open>ClientRef\<close> and a
  \<open>SessionRef\<close> name one. The field \<^verbatim>\<open>Id\<close> of a client is \<open>ClientId\<close> here (\<open>Id\<close> is
  the identity relation of HOL), and the \<^verbatim>\<open>Backoff\<close> of a client is the attempt counter
  of its \<^verbatim>\<open>backoff.Backoff\<close>.
\<close>

type_synonym ClientRef = nat
type_synonym SessionRef = nat

record PeerClient =
  ClientId :: "ID option"
  Session :: "SessionRef option"
  Backoff :: nat

text \<open>
  The state of a node. \<open>Routes\<close>, \<open>Network_Host\<close> and \<open>Network_Port\<close> (the fields
  \<^verbatim>\<open>Host\<close> and \<^verbatim>\<open>Port\<close>, named apart from those of an address), \<open>Processors\<close> (the
  names that have a message processor) and \<open>Peers\<close> (a pointer to a client for each
  address, \<open>None\<close> for a nil pointer) are the fields of its \<^verbatim>\<open>Network\<close>; every client
  points back to this one network. \<open>clients\<close> is the store of the client objects and
  \<open>nextClient\<close> the next free reference; \<open>domainLookupCache\<close> is the package variable of
  that name. The rest records what the node does to its surroundings: the addresses it
  has dialled on the transport, the sessions it has closed, the durations it has slept,
  the processor invocations (client, name and message), the \<^verbatim>\<open>Tell\<close> invocations
  (client and message) and the \<^verbatim>\<open>Redial\<close> invocations.
\<close>

record World =
  Routes :: RoutingTable
  Network_Host :: string
  Network_Port :: "16 word"
  Processors :: "string list"
  Peers :: "ClientRef option SyncMap"
  clients :: "ClientRef \<Rightarrow> PeerClient"
  nextClient :: ClientRef
  domainLookupCache :: LruCache
  dialCalls :: "string list"
  closedSessions :: "SessionRef list"
  sleeps :: "Duration list"
  handled :: "(ClientRef \<times> string \<times> bytes) list"
  tellCalls :: "(ClientRef \<times> bytes) list"
  redialCalls :: "ClientRef list"

definition Network_Address :: "World \<Rightarrow> string" where
  "Network_Address n = Network_Host n @ '':'' @ Itoa (uint (Network_Port n))"

definition setClient :: "ClientRef \<Rightarrow> PeerClient \<Rightarrow> World \<Rightarrow> World" where
  "setClient c v w = w\<lparr>clients := (clients w)(c := v)\<rparr>"

definition createPeerClient :: "World \<Rightarrow> ClientRef \<times> World" where
  "createPeerClient w =
     (nextClient w,
      (setClient (nextClient w) \<lparr>ClientId = None, Session = None, Backoff = 0\<rparr> w)
        \<lparr>nextClient := nextClient w + 1\<rparr>)"

section \<open>The peer client (network/client.go)\<close>

text \<open>
  What the transport does when the client dials an address: \<^verbatim>\<open>kcp.DialWithOptions\<close>
  fails, or \<^verbatim>\<open>smux.Client\<close> fails (and returns a nil session), or a session is open.
\<close>

datatype DialOutcome = DialFails | MuxFails | Connected SessionRef

definition establishConnection ::
  "(string \<Rightarrow> DialOutcome) \<Rightarrow> string \<Rightarrow> ClientRef \<Rightarrow> World \<Rightarrow> error option \<times> World" where
  "establishConnection dial address c w =
     (if Session (clients w c) \<noteq> None then (Some AlreadyEstablished, w)
      else (let w1 = w\<lparr>dialCalls := dialCalls w @ [address]\<rparr>
            in (case dial address of
                  DialFails \<Rightarrow> (Some DialError, w1)
                | MuxFails \<Rightarrow>
                    (Some MuxError, setClient c ((clients w1 c)\<lparr>Session := None\<rparr>) w1)
                | Connected s \<Rightarrow>
                    (None, setClient c ((clients w1 c)\<lparr>Session := Some s\<rparr>) w1))))"

definition PeerClient_close :: "ClientRef \<Rightarrow> World \<Rightarrow> World" where
  "PeerClient_close c w =
     (case ClientId (clients w c) of
        None \<Rightarrow> w
      | Some pid \<Rightarrow>
          if PeerExists (Routes w) pid then w\<lparr>Routes := RemovePeer pid (Routes w)\<rparr> else w)"

definition Backoff_Duration :: "Env \<Rightarrow> ClientRef \<Rightarrow> World \<Rightarrow> Duration \<times> World" where
  "Backoff_Duration env c w =
     (ForAttempt env (Backoff (clients w c)),
      setClient c ((clients w c)\<lparr>Backoff := Backoff (clients w c) + 1\<rparr>) w)"

definition Sleep :: "Duration \<Rightarrow> World \<Rightarrow> World" where
  "Sleep d w = w\<lparr>sleeps := sleeps w @ [d]\<rparr>"

definition maxAttempts :: nat where
  "maxAttempts = 5"

text \<open>
  The loop of \<^verbatim>\<open>reestablishConnection\<close>, entered with the attempts made so far. The
  transport is given for each attempt, numbered from 1. Reading \<^verbatim>\<open>c.Id.Address\<close> of a
  client without an ID is a nil dereference.
\<close>

function reestablish_loop ::
  "Env \<Rightarrow> (nat \<Rightarrow> string \<Rightarrow> DialOutcome) \<Rightarrow> nat \<Rightarrow> ClientRef \<Rightarrow> World \<Rightarrow> error option \<times> World" where
  "reestablish_loop env dials attempt c w =
     (if attempt \<ge> maxAttempts then (Some Unreachable, PeerClient_close c w)
      else (case ClientId (clients w c) of
              None \<Rightarrow> (Some NilDereference, w)
            | Some pid \<Rightarrow>
                (case establishConnection (dials (attempt + 1)) (Address pid) c w of
                   (Some err, w') \<Rightarrow>
                     (case Backoff_Duration env c w' of
                        (d, w'') \<Rightarrow> reestablish_loop env dials (attempt + 1) c (Sleep d w''))
                 | (None, w') \<Rightarrow> (None, w'))))"
  by pat_completeness auto
termination
  by (relation "measure (\<lambda>(env, dials, attempt, c, w). maxAttempts - attempt)") auto

declare reestablish_loop.simps [simp del]

text \<open>
  \<^verbatim>\<open>reestablishConnection\<close>. \<open>closeOk\<close> tells whether \<^verbatim>\<open>Session.Close\<close> returns without an
  error; a session is closed when it is among the closed sessions.
\<close>

definition reestablishConnection ::
  "Env \<Rightarrow> bool \<Rightarrow> (nat \<Rightarrow> string \<Rightarrow> DialOutcome) \<Rightarrow> ClientRef \<Rightarrow> World \<Rightarrow> error option \<times> World" where
  "reestablishConnection env closeOk dials c w =
     (case (case Session (clients w c) of
              Some s \<Rightarrow>
                if s \<notin> set (closedSessions w)
                then (if closeOk then Inr (w\<lparr>closedSessions := closedSessions w @ [s]\<rparr>)
                      else Inl SessionCloseError)
                else Inr w
            | None \<Rightarrow> Inr w) of
        Inl err \<Rightarrow> (Some err, w)
      | Inr w1 \<Rightarrow>
          reestablish_loop env dials 0 c
            (setClient c ((clients w1 c)\<lparr>Backoff := 0, Session := None\<rparr>) w1))"

text \<open>
  \<^verbatim>\<open>handleMessage\<close> from the update of the routing table on: both branches of the
  identity check that do not return continue here.
\<close>

definition handleMessage_dispatch :: "Env \<Rightarrow> ClientRef \<Rightarrow> Message \<Rightarrow> ID \<Rightarrow> World \<Rightarrow> World" where
  "handleMessage_dispatch env c msg pid w =
     (let w1 = w\<lparr>Routes := Update pid (Routes w)\<rparr>
      in (case UnmarshalAny env (Message msg) of
            None \<Rightarrow> w1
          | Some (name, m) \<Rightarrow>
              if name \<in> set (Processors w1)
              then w1\<lparr>handled := handled w1 @ [(c, name, m)]\<rparr>
              else w1))"

text \<open>
  \<^verbatim>\<open>handleMessage\<close> on one stream. \<open>received\<close> is what \<^verbatim>\<open>receiveMessage\<close> returns on the
  stream: \<open>None\<close> for an error, the envelope otherwise.
\<close>

definition handleMessage ::
  "Env \<Rightarrow> (string \<Rightarrow> DialOutcome) \<Rightarrow> ClientRef \<Rightarrow> Message option \<Rightarrow> World \<Rightarrow> World" where
  "handleMessage env dial c received w =
     (case received of
        None \<Rightarrow> w
      | Some msg \<Rightarrow>
          (let pid = Sender msg
           in (case ClientId (clients w c) of
                 None \<Rightarrow>
                   (case establishConnection dial (Address pid) c
                           (setClient c ((clients w c)\<lparr>ClientId := Some pid\<rparr>) w) of
                      (Some err, w') \<Rightarrow> w'
                    | (None, w') \<Rightarrow> handleMessage_dispatch env c msg pid w')
               | Some cid \<Rightarrow>
                   if \<not> Equals cid pid then w
                   else handleMessage_dispatch env c msg pid w)))"

text \<open>
  An envelope gets past the identity check of \<^verbatim>\<open>handleMessage\<close> when the client has the
  sender as its ID, or has no ID and no session yet and the dial back to the sender's
  address opens a session.
\<close>

definition accepted :: "(string \<Rightarrow> DialOutcome) \<Rightarrow> ClientRef \<Rightarrow> Message \<Rightarrow> World \<Rightarrow> bool" where
  "accepted dial c msg w =
     (case ClientId (clients w c) of
        None \<Rightarrow>
          Session (clients w c) = None
          \<and> (case dial (Address (Sender msg)) of Connected s \<Rightarrow> True | _ \<Rightarrow> False)
      | Some cid \<Rightarrow> Equals cid (Sender msg))"


text \<open>
  \<^verbatim>\<open>Tell\<close>. \<open>send\<close> tells, for a client, whether opening a stream and sending on it
  fails.
\<close>

definition Tell ::
  "(ClientRef \<Rightarrow> error option) \<Rightarrow> bytes \<Rightarrow> ClientRef \<Rightarrow> World \<Rightarrow> error option \<times> World" where
  "Tell send message c w =
     (let w1 = w\<lparr>tellCalls := tellCalls w @ [(c, message)]\<rparr>
      in if Session (clients w1 c) = None then (Some SessionNil, w1) else (send c, w1))"

text \<open>
  Modelled from the spec: \<^verbatim>\<open>PeerClient.Redial\<close> is not among the sources. The spec has it
  trigger a reconnect attempt; the invocation is recorded.
\<close>

definition Redial :: "ClientRef \<Rightarrow> World \<Rightarrow> World" where
  "Redial c w = w\<lparr>redialCalls := redialCalls w @ [c]\<rparr>"

text \<open>
  Modelled from the spec: \<^verbatim>\<open>PeerClient.Dial\<close> is not among the sources. The spec has the
  dial establish the connection, wrap it in a session and insert the client into the
  peers of the node.
\<close>

definition PeerClient_Dial ::
  "(string \<Rightarrow> DialOutcome) \<Rightarrow> string \<Rightarrow> ClientRef \<Rightarrow> World \<Rightarrow> error option \<times> World" where
  "PeerClient_Dial dial address c w =
     (case establishConnection dial address c w of
        (Some err, w') \<Rightarrow> (Some err, w')
      | (None, w') \<Rightarrow> (None, w'\<lparr>Peers := Store address (Some c) (Peers w')\<rparr>))"

section \<open>The node (network/network.go)\<close>

definition Dial ::
  "Env \<Rightarrow> (string \<Rightarrow> DialOutcome) \<Rightarrow> string \<Rightarrow> World \<Rightarrow> (error + ClientRef) \<times> World" where
  "Dial env dial address0 w =
     (let address = TrimSpace env address0
      in if length address = 0 then (Inl EmptyAddress, w)
         else (case ToUnifiedAddress env (domainLookupCache w) address of
                 (Inl err, cache') \<Rightarrow> (Inl err, w\<lparr>domainLookupCache := cache'\<rparr>)
               | (Inr address', cache') \<Rightarrow>
                   (let w1 = w\<lparr>domainLookupCache := cache'\<rparr>
                    in if address' = Network_Address w1 then (Inl SelfDial, w1)
                       else (case Load (Peers w1) address' of
                               Some (Some client) \<Rightarrow> (Inr client, w1)
                             | _ \<Rightarrow>
                                 (case createPeerClient w1 of
                                    (client, w2) \<Rightarrow>
                                      (case PeerClient_Dial dial address' client w2 of
                                         (Some err, w3) \<Rightarrow> (Inl err, w3)
                                       | (None, w3) \<Rightarrow> (Inr client, w3)))))))"

text \<open>
  \<^verbatim>\<open>BroadcastByAddresses\<close>. A nil client in the peers makes \<^verbatim>\<open>Tell\<close> dereference nil, and
  so does the warning after a failed \<^verbatim>\<open>Tell\<close> when the client has no ID.
\<close>

fun BroadcastByAddresses ::
  "(ClientRef \<Rightarrow> error option) \<Rightarrow> bytes \<Rightarrow> string list \<Rightarrow> World \<Rightarrow> error + World" where
  "BroadcastByAddresses send message [] w = Inr w"
| "BroadcastByAddresses send message (address # addresses) w =
     (case Load (Peers w) address of
        None \<Rightarrow> BroadcastByAddresses send message addresses w
      | Some None \<Rightarrow> Inl NilDereference
      | Some (Some client) \<Rightarrow>
          (case Tell send message client w of
             (err, w1) \<Rightarrow>
               if err \<noteq> None \<and> ClientId (clients w1 client) = None then Inl NilDereference
               else BroadcastByAddresses send message addresses (Redial client w1)))"

text \<open>Every entry of the peers points to a client, and the client has its ID.\<close>

definition peersHaveIds :: "World \<Rightarrow> bool" where
  "peersHaveIds w =
     list_all (\<lambda>e. case snd e of None \<Rightarrow> False | Some c \<Rightarrow> ClientId (clients w c) \<noteq> None)
       (Peers w)"

text \<open>
  Go's \<^verbatim>\<open>int\<close> has 64 bits on the platforms the node runs on: \<^verbatim>\<open>K*3\<close> wraps around, and
  the comparisons read the words as signed.
\<close>

type_synonym GoInt = "64 word"

text \<open>
  The \<^verbatim>\<open>Range\<close> of \<^verbatim>\<open>BroadcastRandomly\<close> over the peers, with the addresses gathered so
  far: the callback appends the address of the client's ID and stops the traversal when
  it returns false.
\<close>

fun BroadcastRandomly_scan ::
  "World \<Rightarrow> GoInt \<Rightarrow> ClientRef option SyncMap \<Rightarrow> string list \<Rightarrow> error + string list" where
  "BroadcastRandomly_scan w K [] addresses = Inr addresses"
| "BroadcastRandomly_scan w K ((key, client) # rest) addresses =
     (case client of
        None \<Rightarrow> Inl NilDereference
      | Some c \<Rightarrow>
          (case ClientId (clients w c) of
             None \<Rightarrow> Inl NilDereference
           | Some pid \<Rightarrow>
               (let addresses' = addresses @ [Address pid]
                in if int (length addresses') > sint (K * 3) then Inr addresses'
                   else BroadcastRandomly_scan w K rest addresses')))"

text \<open>
  \<^verbatim>\<open>rand.Shuffle\<close>: for \<open>i\<close> from \<open>n - 1\<close> down to 1, swap the elements at \<open>i\<close> and at a
  random \<open>j\<close> with \<open>0 \<le> j \<le> i\<close>. \<open>rnd i\<close> is the number drawn at \<open>i\<close>.
\<close>

definition swap :: "nat \<Rightarrow> nat \<Rightarrow> 'a list \<Rightarrow> 'a list" where
  "swap i j xs = xs[i := xs ! j, j := xs ! i]"

fun Shuffle_loop :: "(nat \<Rightarrow> nat) \<Rightarrow> nat \<Rightarrow> 'a list \<Rightarrow> 'a list" where
  "Shuffle_loop rnd 0 xs = xs"
| "Shuffle_loop rnd (Suc i) xs = Shuffle_loop rnd i (swap (Suc i) (rnd (Suc i) mod (Suc i + 1)) xs)"

definition Shuffle :: "(nat \<Rightarrow> nat) \<Rightarrow> nat \<Rightarrow> 'a list \<Rightarrow> 'a list" where
  "Shuffle rnd n xs = Shuffle_loop rnd (n - 1) xs"

text \<open>
  The slice expression \<^verbatim>\<open>addresses[:K]\<close>: it panics when \<open>K\<close> is negative or beyond
  the slice (Go allows \<open>K\<close> up to the capacity; after the cap on \<open>K\<close> it is never beyond
  the length).
\<close>

definition slice_to :: "'a list \<Rightarrow> int \<Rightarrow> error + 'a list" where
  "slice_to xs k = (if k < 0 \<or> int (length xs) < k then Inl SliceBounds else Inr (take (nat k) xs))"

text \<open>
  \<^verbatim>\<open>BroadcastRandomly\<close> up to its last line: the addresses it passes to
  \<^verbatim>\<open>BroadcastByAddresses\<close>.
\<close>

definition BroadcastRandomly_sample :: "(nat \<Rightarrow> nat) \<Rightarrow> GoInt \<Rightarrow> World \<Rightarrow> error + string list" where
  "BroadcastRandomly_sample rnd K w =
     (case BroadcastRandomly_scan w K (Peers w) [] of
        Inl err \<Rightarrow> Inl err
      | Inr gathered \<Rightarrow>
          (let addresses = Shuffle rnd (length gathered) gathered;
               K' = (if int (length addresses) < sint K then of_nat (length addresses) else K)
           in slice_to addresses (sint K')))"

definition BroadcastRandomly ::
  "(ClientRef \<Rightarrow> error option) \<Rightarrow> (nat \<Rightarrow> nat) \<Rightarrow> bytes \<Rightarrow> GoInt \<Rightarrow> World \<Rightarrow> error + World" where
  "BroadcastRandomly send rnd message K w =
     (case BroadcastRandomly_sample rnd K w of
        Inl err \<Rightarrow> Inl err
      | Inr chosen \<Rightarrow> BroadcastByAddresses send message chosen w)"

section \<open>A sample environment and node\<close>

text \<open>
  An environment that knows a few addresses, decodes bodies of type \<open>ping\<close> and doubles
  the backoff from 100; a node at \<open>127.0.0.1:3000\<close> with a processor for pings; and
  peers at five addresses for it.
\<close>

definition sampleEnv :: Env where
  "sampleEnv =
     \<lparr>TrimSpace = (\<lambda>s. s),
      url_Parse = (\<lambda>s. if s = ''//127.0.0.1:3000'' then Some ('''', ''127.0.0.1:3000'')
                        else if s = ''tcp://localhost:3001'' then Some (''tcp'', ''localhost:3001'')
                        else None),
      SplitHostPort = (\<lambda>s. if s = ''127.0.0.1:3000'' then Some (''127.0.0.1'', ''3000'')
                        else if s = ''localhost:3001'' then Some (''localhost'', ''3001'')
                        else None),
      ParseUint = (\<lambda>s. if s = ''3000'' then Some 3000 else if s = ''3001'' then Some 3001 else None),
      ParseIP = (\<lambda>s. s = ''127.0.0.1''),
      LookupHost = (\<lambda>s. if s = ''localhost'' then Some [''::1'', ''127.0.0.1''] else None),
      UnmarshalAny = (\<lambda>a. if TypeUrl a = ''ping'' then Some (''*messages.Ping'', Value a) else None),
      ForAttempt = (\<lambda>n. 100 * 2 ^ n)\<rparr>"

definition sampleNode :: World where
  "sampleNode =
     \<lparr>Routes = [], Network_Host = ''127.0.0.1'', Network_Port = 3000,
      Processors = [''*messages.Ping''], Peers = [],
      clients = (\<lambda>c. \<lparr>ClientId = None, Session = None, Backoff = 0\<rparr>),
      nextClient = 0, domainLookupCache = [], dialCalls = [], closedSessions = [], sleeps = [],
      handled = [], tellCalls = [], redialCalls = []\<rparr>"


definition peerY :: ID where
  "peerY = \<lparr>Address = ''tcp://127.0.0.1:3002'', PublicKey = [4, 5, 6]\<rparr>"

text \<open>
  A peer with an address the transport can dial, and the sample node after client 0 has
  been bound to that peer.
\<close>

definition peerZ :: ID where
  "peerZ = \<lparr>Address = ''127.0.0.1:3001'', PublicKey = [1, 2, 3]\<rparr>"

definition boundNode :: World where
  "boundNode = setClient 0 \<lparr>ClientId = Some peerZ, Session = Some 1, Backoff = 0\<rparr> sampleNode"

definition envelope :: "ID \<Rightarrow> string \<Rightarrow> Message" where
  "envelope sender url =
     \<lparr>Message = \<lparr>TypeUrl = url, Value = [7]\<rparr>, Sender = sender, Signature = [9]\<rparr>"

definition peerAt :: "nat \<Rightarrow> ID" where
  "peerAt i = \<lparr>Address = ''peer'' @ utoa i, PublicKey = [of_nat i]\<rparr>"

definition sampleCluster :: World where
  "sampleCluster =
     sampleNode
       \<lparr>Peers := map (\<lambda>i. (''peer'' @ utoa i, Some i)) [0 ..< 5],
        clients := (\<lambda>c. \<lparr>ClientId = Some (peerAt c), Session = Some c, Backoff = 0\<rparr>),
        nextClient := 5\<rparr>"

section \<open>Properties of the pool\<close>

lemma Gc_collect_fold:
  "fold (Gc_collect t) m acc = acc @ map fst (filter (\<lambda>e. expiresAt (snd e) < t) m)"
  by (induction m arbitrary: acc) (simp_all add: Gc_collect_def Before_def)

lemma Delete_filter: "Delete k m = filter (\<lambda>e. fst e \<noteq> k) m"
  by (induction m) (auto simp: Delete_def)

lemma Get_None_iff: "Get p k = None \<longleftrightarrow> k \<notin> fst ` set (objects p)"
proof -
  have "Get p k = None \<longleftrightarrow> map_of (objects p) k = None"
    by (simp add: Get_def getObject_def Load_def split: option.splits)
  then show ?thesis by (simp add: map_of_eq_None_iff)
qed

lemma Gc_sweep_objects: "objects (Gc_sweep k p) = filter (\<lambda>e. fst e \<noteq> k) (objects p)"
proof (cases "Get p k")
  case None
  then have "k \<notin> fst ` set (objects p)" by (simp add: Get_None_iff)
  then have "filter (\<lambda>e. fst e \<noteq> k) (objects p) = objects p"
    by (auto simp: filter_id_conv)
  with None show ?thesis by (simp add: Gc_sweep_def)
next
  case (Some h)
  then show ?thesis by (simp add: Gc_sweep_def Close_def Delete_filter)
qed

lemma fold_Gc_sweep_objects:
  "objects (fold Gc_sweep ks p) = filter (\<lambda>e. fst e \<notin> set ks) (objects p)"
proof (induction ks arbitrary: p)
  case Nil
  show ?case by simp
next
  case (Cons k ks)
  have "objects (fold Gc_sweep (k # ks) p) = filter (\<lambda>e. fst e \<notin> set ks) (objects (Gc_sweep k p))"
    using Cons.IH by simp
  also have "\<dots> = filter (\<lambda>e. fst e \<notin> set (k # ks)) (objects p)"
    by (simp add: Gc_sweep_objects conj_commute)
  finally show ?case .
qed

lemma Gc_objects:
  "objects (Gc t p) = filter (\<lambda>e. fst e \<notin> fst ` {e \<in> set (objects p). expiresAt (snd e) < t}) (objects p)"
  by (simp add: Gc_def Gc_collect_fold fold_Gc_sweep_objects)

lemma Gc_no_expired: "\<forall>e \<in> set (objects p). \<not> expiresAt (snd e) < t \<Longrightarrow> Gc t p = p"
proof -
  assume "\<forall>e \<in> set (objects p). \<not> expiresAt (snd e) < t"
  then have "filter (\<lambda>e. expiresAt (snd e) < t) (objects p) = []"
    by (simp add: filter_empty_conv)
  then show ?thesis by (simp add: Gc_def Gc_collect_fold)
qed

lemma Gc_idem: "Gc t (Gc t p) = Gc t p"
proof (rule Gc_no_expired)
  show "\<forall>e \<in> set (objects (Gc t p)). \<not> expiresAt (snd e) < t"
    by (force simp: Gc_objects)
qed


lemma Gc_sweep_closeCalls:
  "closeCalls (Gc_sweep k p) = closeCalls p @ (case Get p k of None \<Rightarrow> [] | Some h \<Rightarrow> [h])"
  by (simp add: Gc_sweep_def Close_def split: option.splits)

lemma map_of_filter_keys:
  "map_of (filter (\<lambda>e. fst e \<notin> E) m) k = (if k \<in> E then None else map_of m k)"
  by (induction m) auto

lemma Get_map_of: "Get p k = map_option handle (map_of (objects p) k)"
  by (simp add: Get_def getObject_def Load_def split: option.splits)

lemma Get_Gc_sweep: "Get (Gc_sweep k p) k' = (if k' = k then None else Get p k')"
  using map_of_filter_keys [of "{k}" "objects p" k']
  by (simp add: Get_map_of Gc_sweep_objects)

lemma fold_Gc_sweep_closeCalls:
  "count_list (closeCalls (fold Gc_sweep ks p)) h
     = count_list (closeCalls p) h + card {k \<in> set ks. Get p k = Some h}"
proof (induction ks arbitrary: p)
  case Nil
  show ?case by simp
next
  case (Cons k ks)
  define A where "A = {k' \<in> set ks. k' \<noteq> k \<and> Get p k' = Some h}"
  have finA: "finite A" and kA: "k \<notin> A" by (simp_all add: A_def)
  have rest: "{k' \<in> set ks. Get (Gc_sweep k p) k' = Some h} = A"
    by (auto simp: A_def Get_Gc_sweep)
  have step: "count_list (closeCalls (fold Gc_sweep (k # ks) p)) h
                = count_list (closeCalls (Gc_sweep k p)) h + card A"
    using Cons.IH [of "Gc_sweep k p"] rest by simp
  show ?case
  proof (cases "Get p k = Some h")
    case True
    have "{k' \<in> set (k # ks). Get p k' = Some h} = insert k A"
      using True by (auto simp: A_def)
    then have "card {k' \<in> set (k # ks). Get p k' = Some h} = Suc (card A)"
      using finA kA by simp
    moreover have "count_list (closeCalls (Gc_sweep k p)) h = count_list (closeCalls p) h + 1"
      using True by (simp add: Gc_sweep_closeCalls)
    ultimately show ?thesis using step by simp
  next
    case False
    have "{k' \<in> set (k # ks). Get p k' = Some h} = A"
      using False by (auto simp: A_def)
    moreover have "count_list (closeCalls (Gc_sweep k p)) h = count_list (closeCalls p) h"
      using False by (simp add: Gc_sweep_closeCalls split: option.splits)
    ultimately show ?thesis using step by simp
  qed
qed

lemma Gc_closeCalls:
  "count_list (closeCalls (Gc t p)) h
     = count_list (closeCalls p) h
       + card {k \<in> fst ` {e \<in> set (objects p). expiresAt (snd e) < t}. Get p k = Some h}"
  by (simp add: Gc_def Gc_collect_fold fold_Gc_sweep_closeCalls)

lemma Get_Gc:
  "Get (Gc t p) k =
     (if k \<in> fst ` {e \<in> set (objects p). expiresAt (snd e) < t} then None else Get p k)"
  by (simp only: Get_map_of Gc_objects map_of_filter_keys) simp

lemma Add_objects:
  "map_of (objects (Add t k h cfg p)) =
     (map_of (objects p))(k \<mapsto> \<lparr>expiresAt = t + AliveFor cfg, handle = h, config = cfg\<rparr>)"
  by (simp add: Add_def Store_def update_conv')

lemma Add_distinct:
  "distinct (map fst (objects p)) \<Longrightarrow> distinct (map fst (objects (Add t k h cfg p)))"
  by (simp add: Add_def Store_def distinct_update)

lemma Add_entry:
  assumes "distinct (map fst (objects p))" and "e \<in> set (objects (Add t k h cfg p))"
    and "fst e = k"
  shows "snd e = \<lparr>expiresAt = t + AliveFor cfg, handle = h, config = cfg\<rparr>"
proof -
  have "map_of (objects (Add t k h cfg p)) (fst e) = Some (snd e)"
    using assms(2) Add_distinct [OF assms(1)] by (simp add: map_of_is_SomeI)
  then show ?thesis using assms(3) by (simp add: Add_objects)
qed

lemma Add_mem: "(k, \<lparr>expiresAt = t + AliveFor cfg, handle = h, config = cfg\<rparr>) \<in> set (objects (Add t k h cfg p))"
  by (rule map_of_SomeD) (simp add: Add_objects)

text \<open>
  Claim C2, as the code has it. \<^verbatim>\<open>Gc\<close> collects an entry when its \<^verbatim>\<open>expiresAt\<close> is
  \<^emph>\<open>before\<close> the clock reading, a strict comparison. In a pool with unique keys that holds
  the handle \<open>h\<close> under no key but \<open>k\<close>: after \<open>Add\<close> of \<open>k\<close> at time \<open>t\<close> with
  \<open>AliveFor = d\<close>, \<open>Get k\<close> returns \<open>h\<close>; it still does after a \<open>Gc\<close> at any time
  \<open>t'\<close> up to and including \<open>t + d\<close>; after a \<open>Gc\<close> at a time \<open>now\<close> strictly later than
  \<open>t + d\<close>, \<open>Get k\<close> finds nothing and \<^verbatim>\<open>Close\<close> has been invoked on \<open>h\<close> exactly once
  more than before.
\<close>

theorem Gc_evicts_expired:
  assumes dist: "distinct (map fst (objects p))"
      and other: "\<forall>e \<in> set (objects p). fst e \<noteq> k \<longrightarrow> handle (snd e) \<noteq> h"
      and early: "t' \<le> t + d"
      and late: "t + d < now"
  shows "Get (Add t k h \<lparr>AliveFor = d\<rparr> p) k = Some h
       \<and> Get (Gc t' (Add t k h \<lparr>AliveFor = d\<rparr> p)) k = Some h
       \<and> Get (Gc now (Add t k h \<lparr>AliveFor = d\<rparr> p)) k = None
       \<and> count_list (closeCalls (Gc now (Add t k h \<lparr>AliveFor = d\<rparr> p))) h
           = count_list (closeCalls p) h + 1"
proof -
  define q where "q = Add t k h \<lparr>AliveFor = d\<rparr> p"
  define obj where "obj = \<lparr>expiresAt = t + d, handle = h, config = \<lparr>AliveFor = d\<rparr>\<rparr>"
  have getq: "Get q k = Some h"
    by (simp add: q_def Get_map_of Add_objects)
  have ent: "snd e = obj" if "e \<in> set (objects q)" "fst e = k" for e
    using Add_entry [OF dist, of e t k h "\<lparr>AliveFor = d\<rparr>"] that by (simp add: q_def obj_def)
  have mem: "(k, obj) \<in> set (objects q)"
    using Add_mem [of k t "\<lparr>AliveFor = d\<rparr>" h p] by (simp add: q_def obj_def)
  have notin: "k \<notin> fst ` {e \<in> set (objects q). expiresAt (snd e) < t'}"
  proof
    assume "k \<in> fst ` {e \<in> set (objects q). expiresAt (snd e) < t'}"
    then obtain e where "e \<in> set (objects q)" "fst e = k" "expiresAt (snd e) < t'" by auto
    then show False using ent [of e] early by (simp add: obj_def)
  qed
  have isin: "k \<in> fst ` {e \<in> set (objects q). expiresAt (snd e) < now}"
    using mem late by (force simp: obj_def)
  have others: "Get q k' \<noteq> Some h" if "k' \<noteq> k" for k'
  proof
    assume "Get q k' = Some h"
    then have "map_option handle (map_of (objects p) k') = Some h"
      using that by (simp add: q_def Get_map_of Add_objects)
    then obtain o' where "map_of (objects p) k' = Some o'" "handle o' = h"
      by auto
    then have "(k', o') \<in> set (objects p)" by (simp add: map_of_SomeD)
    then show False using other that \<open>handle o' = h\<close> by force
  qed
  have "{k' \<in> fst ` {e \<in> set (objects q). expiresAt (snd e) < now}. Get q k' = Some h} = {k}"
    using isin getq others by blast
  then have cnt: "count_list (closeCalls (Gc now q)) h = count_list (closeCalls q) h + 1"
    by (simp add: Gc_closeCalls)
  have cq: "closeCalls q = closeCalls p" by (simp add: q_def Add_def)
  show ?thesis
    using getq notin isin cnt cq by (simp add: Get_Gc q_def [symmetric])
qed

text \<open>The scenario of \<^verbatim>\<open>TestSingleThreadedPool\<close>, with the clock written out.\<close>

theorem Gc_evicts_expired_witness:
  "Get (Add 0 ''foo'' 7 \<lparr>AliveFor = 100\<rparr> NewPool) ''foo'' = Some 7
   \<and> Get (Gc 100 (Add 0 ''foo'' 7 \<lparr>AliveFor = 100\<rparr> NewPool)) ''foo'' = Some 7
   \<and> Get (Gc 101 (Add 0 ''foo'' 7 \<lparr>AliveFor = 100\<rparr> NewPool)) ''foo'' = None
   \<and> count_list (closeCalls (Gc 101 (Add 0 ''foo'' 7 \<lparr>AliveFor = 100\<rparr> NewPool))) 7 = 1"
  using Gc_evicts_expired [of NewPool "''foo''" 7 100 0 100 101]
  by (simp add: NewPool_def)

text \<open>
  Claim C2, as stated, asks for the eviction at every \<open>now \<ge> expiresAt\<close>. At
  \<open>now = expiresAt\<close> the entry is not before \<open>now\<close>: it stays and is not closed.
\<close>

theorem Gc_at_expiry_keeps_entry:
  "Get (Gc 100 (Add 0 ''foo'' 7 \<lparr>AliveFor = 100\<rparr> NewPool)) ''foo'' = Some 7
   \<and> closeCalls (Gc 100 (Add 0 ''foo'' 7 \<lparr>AliveFor = 100\<rparr> NewPool)) = []"
  by (simp add: Gc_def Gc_collect_def Before_def Add_def Store_def NewPool_def Get_def
      getObject_def Load_def)


lemma runOp_closeCalls: "\<not> isGc op \<Longrightarrow> closeCalls (runOp op p) = closeCalls p"
  by (cases op) (simp_all add: Add_def Remove_def GetAndRenew_def Let_def split: option.splits)

lemma runOps_closeCalls:
  "list_all (\<lambda>op. \<not> isGc op) ops \<Longrightarrow> closeCalls (runOps ops p) = closeCalls p"
  unfolding runOps_def
  by (induction ops arbitrary: p) (simp_all add: runOp_closeCalls)

text \<open>
  Claim C8. \<open>Add\<close> on a key (present or not) leaves the sequence of \<^verbatim>\<open>Close\<close> invocations as
  it was, makes \<open>Get\<close> return the new handle and adds no key but this one; \<open>Remove\<close>
  leaves the invocations as they were and makes \<open>Get\<close> find nothing; and a history of
  operations without a \<open>Gc\<close> invokes no \<^verbatim>\<open>Close\<close> at all.
\<close>

theorem Close_only_by_Gc:
  "closeCalls (Add now k h2 cfg p) = closeCalls p
   \<and> Get (Add now k h2 cfg p) k = Some h2
   \<and> fst ` set (objects (Add now k h2 cfg p)) = insert k (fst ` set (objects p))
   \<and> closeCalls (Remove k p) = closeCalls p
   \<and> Get (Remove k p) k = None
   \<and> (list_all (\<lambda>op. \<not> isGc op) ops \<longrightarrow> closeCalls (runOps ops p) = closeCalls p)"
proof -
  have "closeCalls (Add now k h2 cfg p) = closeCalls p"
    by (simp add: Add_def)
  moreover have "Get (Add now k h2 cfg p) k = Some h2"
    by (simp add: Get_map_of Add_objects)
  moreover have "fst ` set (objects (Add now k h2 cfg p)) = insert k (fst ` set (objects p))"
    by (simp add: Add_def Store_def dom_update)
  moreover have "closeCalls (Remove k p) = closeCalls p"
    by (simp add: Remove_def)
  moreover have "Get (Remove k p) k = None"
    by (simp add: Get_map_of Remove_def Delete_def delete_conv')
  ultimately show ?thesis
    using runOps_closeCalls by blast
qed

text \<open>A key added twice, renewed and removed: nothing is closed.\<close>

theorem Close_only_by_Gc_witness:
  "Get (Add 5 ''a'' 2 \<lparr>AliveFor = 10\<rparr> (Add 0 ''a'' 1 \<lparr>AliveFor = 10\<rparr> NewPool)) ''a'' = Some 2
   \<and> closeCalls (Add 5 ''a'' 2 \<lparr>AliveFor = 10\<rparr> (Add 0 ''a'' 1 \<lparr>AliveFor = 10\<rparr> NewPool)) = []
   \<and> list_all (\<lambda>op. \<not> isGc op)
        [OpAdd 0 ''a'' 1 \<lparr>AliveFor = 10\<rparr>, OpAdd 5 ''a'' 2 \<lparr>AliveFor = 10\<rparr>,
         OpGetAndRenew 7 ''a'', OpRemove ''a'']
   \<and> closeCalls (runOps [OpAdd 0 ''a'' 1 \<lparr>AliveFor = 10\<rparr>, OpAdd 5 ''a'' 2 \<lparr>AliveFor = 10\<rparr>,
         OpGetAndRenew 7 ''a'', OpRemove ''a''] NewPool) = []"
  using Close_only_by_Gc [of 5 "''a''" 2 "\<lparr>AliveFor = 10\<rparr>" "Add 0 ''a'' 1 \<lparr>AliveFor = 10\<rparr> NewPool"
      "[OpAdd 0 ''a'' 1 \<lparr>AliveFor = 10\<rparr>, OpAdd 5 ''a'' 2 \<lparr>AliveFor = 10\<rparr>,
         OpGetAndRenew 7 ''a'', OpRemove ''a'']"]
    Close_only_by_Gc [of 5 "''a''" 2 "\<lparr>AliveFor = 10\<rparr>" NewPool
      "[OpAdd 0 ''a'' 1 \<lparr>AliveFor = 10\<rparr>, OpAdd 5 ''a'' 2 \<lparr>AliveFor = 10\<rparr>,
         OpGetAndRenew 7 ''a'', OpRemove ''a'']"]
  by (simp add: NewPool_def Add_def)

text \<open>
  Claim C9. At one clock reading, a second \<open>Gc\<close> right after the first changes nothing:
  the pool is the same, and so is the sequence of \<^verbatim>\<open>Close\<close> invocations (the second run
  closes no handle).
\<close>

theorem Gc_idempotent:
  "Gc t (Gc t p) = Gc t p \<and> closeCalls (Gc t (Gc t p)) = closeCalls (Gc t p)"
  by (simp add: Gc_idem)

section \<open>Properties of peer filtering\<close>

lemma AddressInfo_String_nonempty: "AddressInfo_String info \<noteq> []"
  by (simp add: AddressInfo_String_def JoinHostPort_def Let_def)

lemma ToUnifiedAddress_nonempty:
  "ToUnifiedAddress env cache a = (Inr r, cache') \<Longrightarrow> r \<noteq> []"
  by (auto simp: ToUnifiedAddress_def Let_def AddressInfo_String_nonempty
      split: if_splits sum.splits prod.splits)

lemma resolvedForms_nonempty: "[] \<notin> set (resolvedForms env cache peers)"
proof (induction peers arbitrary: cache)
  case Nil
  show ?case by simp
next
  case (Cons p peers)
  show ?case
  proof (cases "length p = 0")
    case True
    then show ?thesis using Cons.IH by simp
  next
    case False
    obtain res cache' where r: "ToUnifiedAddress env cache p = (res, cache')"
      by (cases "ToUnifiedAddress env cache p")
    show ?thesis
    proof (cases res)
      case (Inl e)
      then show ?thesis using False r Cons.IH by simp
    next
      case (Inr s)
      then have "s \<noteq> []" using r ToUnifiedAddress_nonempty by blast
      then show ?thesis using False r Inr Cons.IH [of cache'] by auto
    qed
  qed
qed

lemma FilterPeers_step_unfold:
  "FilterPeers_step env p (visited, filtered, cache) =
     (if length p = 0 then (visited, filtered, cache)
      else (case ToUnifiedAddress env cache p of
              (Inl err, cache') \<Rightarrow> (visited, filtered, cache')
            | (Inr resolved, cache') \<Rightarrow>
                if resolved \<notin> visited
                then (insert resolved visited, filtered @ [resolved], cache')
                else (visited, filtered, cache')))"
  by (simp add: FilterPeers_step_def)

lemma FilterPeers_fold:
  "fold (FilterPeers_step env) peers (visited, filtered, cache) = (visited', filtered', cache') \<Longrightarrow>
   \<exists>new. filtered' = filtered @ new \<and> distinct new \<and> set new \<inter> visited = {}
     \<and> subseq new (resolvedForms env cache peers)
     \<and> set new = set (resolvedForms env cache peers) - visited"
proof (induction peers arbitrary: visited filtered cache)
  case Nil
  then show ?case by simp
next
  case (Cons p peers)
  show ?case
  proof (cases "length p = 0")
    case True
    then have "fold (FilterPeers_step env) peers (visited, filtered, cache) = (visited', filtered', cache')"
      using Cons.prems by (simp add: FilterPeers_step_unfold)
    from Cons.IH [OF this] True show ?thesis by simp
  next
    case False
    obtain res c1 where r: "ToUnifiedAddress env cache p = (res, c1)"
      by (cases "ToUnifiedAddress env cache p")
    show ?thesis
    proof (cases res)
      case (Inl e)
      then have "fold (FilterPeers_step env) peers (visited, filtered, c1) = (visited', filtered', cache')"
        using Cons.prems False r by (simp add: FilterPeers_step_unfold)
      from Cons.IH [OF this] False r Inl show ?thesis by simp
    next
      case (Inr s)
      show ?thesis
      proof (cases "s \<in> visited")
        case True
        then have "fold (FilterPeers_step env) peers (visited, filtered, c1) = (visited', filtered', cache')"
          using Cons.prems False r Inr by (simp add: FilterPeers_step_unfold)
        from Cons.IH [OF this] obtain new where n: "filtered' = filtered @ new" "distinct new"
          "set new \<inter> visited = {}" "subseq new (resolvedForms env c1 peers)"
          "set new = set (resolvedForms env c1 peers) - visited" by blast
        have rf: "resolvedForms env cache (p # peers) = s # resolvedForms env c1 peers"
          using False r Inr by simp
        have "subseq new (s # resolvedForms env c1 peers)"
          using n(4) by (simp add: subseq_Cons' list_emb_Cons)
        moreover have "set new = set (s # resolvedForms env c1 peers) - visited"
          using n(5) True by auto
        ultimately show ?thesis using n(1,2,3) rf by auto
      next
        case notin: False
        then have "fold (FilterPeers_step env) peers (insert s visited, filtered @ [s], c1)
                     = (visited', filtered', cache')"
          using Cons.prems False r Inr by (simp add: FilterPeers_step_unfold)
        from Cons.IH [OF this] obtain new where n: "filtered' = (filtered @ [s]) @ new" "distinct new"
          "set new \<inter> insert s visited = {}" "subseq new (resolvedForms env c1 peers)"
          "set new = set (resolvedForms env c1 peers) - insert s visited" by blast
        have rf: "resolvedForms env cache (p # peers) = s # resolvedForms env c1 peers"
          using False r Inr by simp
        have "filtered' = filtered @ (s # new)" using n(1) by simp
        moreover have "distinct (s # new)" using n(2,3) by auto
        moreover have "set (s # new) \<inter> visited = {}" using n(3) notin by auto
        moreover have "subseq (s # new) (s # resolvedForms env c1 peers)" using n(4) by simp
        moreover have "set (s # new) = set (s # resolvedForms env c1 peers) - visited"
          using n(5) notin by auto
        ultimately show ?thesis using rf by metis
      qed
    qed
  qed
qed

text \<open>
  Claim C5. For every own address, candidate list, environment and cache, the list
  \<^verbatim>\<open>FilterPeers\<close> returns has no empty entry, does not contain the own address, has no
  entry twice, and is a subsequence of the resolved forms of the candidates, in their
  order; it holds every resolved form but the own address.
\<close>

theorem FilterPeers_unique_resolved:
  "[] \<notin> set (fst (FilterPeers env cache address peers))
   \<and> address \<notin> set (fst (FilterPeers env cache address peers))
   \<and> distinct (fst (FilterPeers env cache address peers))
   \<and> subseq (fst (FilterPeers env cache address peers)) (resolvedForms env cache peers)
   \<and> set (fst (FilterPeers env cache address peers)) = set (resolvedForms env cache peers) - {address}"
proof -
  obtain v f c where st: "fold (FilterPeers_step env) peers ({address}, [], cache) = (v, f, c)"
    by (cases "fold (FilterPeers_step env) peers ({address}, [], cache)")
  have f: "fst (FilterPeers env cache address peers) = f"
    using st by (simp add: FilterPeers_def)
  from FilterPeers_fold [OF st] have n: "distinct f" "set f \<inter> {address} = {}"
    "subseq f (resolvedForms env cache peers)"
    "set f = set (resolvedForms env cache peers) - {address}" by auto
  have "[] \<notin> set f" using n(4) resolvedForms_nonempty [of env cache peers] by auto
  then show ?thesis using n f by auto
qed

section \<open>Properties of dialling and of inbound envelopes\<close>

text \<open>
  Claim C3. \<^verbatim>\<open>Dial\<close> trims the address and resolves what it has trimmed; trimming a
  trimmed string changes nothing. For every node and address whose canonical form,
  as \<^verbatim>\<open>ToUnifiedAddress\<close> returns it, is the node's own \<^verbatim>\<open>Address()\<close>, \<^verbatim>\<open>Dial\<close> fails
  with the self-dial error, the peers are unchanged, and no client is created or
  changed.
\<close>

theorem Dial_self:
  assumes idem: "TrimSpace env (TrimSpace env address) = TrimSpace env address"
      and canon: "fst (ToUnifiedAddress env (domainLookupCache w) address) = Inr (Network_Address w)"
  shows "fst (Dial env dial address w) = Inl SelfDial
       \<and> Peers (snd (Dial env dial address w)) = Peers w
       \<and> clients (snd (Dial env dial address w)) = clients w
       \<and> nextClient (snd (Dial env dial address w)) = nextClient w"
proof -
  define t where "t = TrimSpace env address"
  have same: "ToUnifiedAddress env (domainLookupCache w) t = ToUnifiedAddress env (domainLookupCache w) address"
    using idem by (simp add: ToUnifiedAddress_def t_def)
  have ne: "length t \<noteq> 0"
    using canon by (auto simp: ToUnifiedAddress_def t_def Let_def)
  obtain cache' where r: "ToUnifiedAddress env (domainLookupCache w) t = (Inr (Network_Address w), cache')"
    using canon same by (cases "ToUnifiedAddress env (domainLookupCache w) address") auto
  have na: "Network_Address (w\<lparr>domainLookupCache := cache'\<rparr>) = Network_Address w"
    by (simp add: Network_Address_def)
  have "Dial env dial address w = (Inl SelfDial, w\<lparr>domainLookupCache := cache'\<rparr>)"
    using ne r na by (simp add: Dial_def t_def [symmetric] Let_def)
  then show ?thesis by simp
qed

text \<open>The node at \<open>127.0.0.1:3000\<close> dials \<open>//127.0.0.1:3000\<close>.\<close>

theorem Dial_self_witness:
  "fst (ToUnifiedAddress sampleEnv (domainLookupCache sampleNode) ''//127.0.0.1:3000'')
     = Inr (Network_Address sampleNode)
   \<and> fst (Dial sampleEnv (\<lambda>a. Connected 1) ''//127.0.0.1:3000'' sampleNode) = Inl SelfDial
   \<and> Peers (snd (Dial sampleEnv (\<lambda>a. Connected 1) ''//127.0.0.1:3000'' sampleNode)) = []"
proof -
  have idem: "TrimSpace sampleEnv (TrimSpace sampleEnv ''//127.0.0.1:3000'')
                = TrimSpace sampleEnv ''//127.0.0.1:3000''"
    by (simp add: sampleEnv_def)
  have canon: "fst (ToUnifiedAddress sampleEnv (domainLookupCache sampleNode) ''//127.0.0.1:3000'')
                = Inr (Network_Address sampleNode)"
    by code_simp
  have "Peers sampleNode = []" by (simp add: sampleNode_def)
  then show ?thesis
    using canon Dial_self [OF idem canon, of "\<lambda>a. Connected 1"] by simp
qed












lemma establishConnection_frame:
  "establishConnection dial a c w = (r, w') \<Longrightarrow>
   Routes w' = Routes w \<and> handled w' = handled w \<and> Processors w' = Processors w \<and> Peers w' = Peers w"
  by (auto simp: establishConnection_def setClient_def Let_def split: if_splits DialOutcome.splits)

lemma establishConnection_connects:
  "Session (clients w c) = None \<Longrightarrow> dial a = Connected s \<Longrightarrow>
   fst (establishConnection dial a c w) = None"
  by (simp add: establishConnection_def Let_def)

lemma handleMessage_dispatch_Routes:
  "Routes (handleMessage_dispatch env c msg pid w) = Update pid (Routes w)"
  by (simp add: handleMessage_dispatch_def Let_def split: option.splits prod.splits)

lemma handleMessage_dispatch_undecodable:
  "UnmarshalAny env (Message msg) = None \<Longrightarrow>
   handled (handleMessage_dispatch env c msg pid w) = handled w"
  by (simp add: handleMessage_dispatch_def Let_def)

lemma establishConnection_refuses:
  assumes "Session (clients w c) \<noteq> None \<or> (\<forall>s. dial a \<noteq> Connected s)"
  shows "fst (establishConnection dial a c w) \<noteq> None"
  using assms
  by (cases "dial a") (auto simp: establishConnection_def Let_def)

text \<open>
  Claim C6, as the code has it. \<^verbatim>\<open>handleMessage\<close> updates the routing table before it
  decodes the body. For every inbound envelope: when it gets past the identity check,
  the routing table has been updated with its sender, whether or not its body decodes;
  when it does not get past the check, the routing table is as it was and no processor
  is invoked; and an envelope whose body fails to decode invokes no processor.
\<close>

theorem routing_update_precedes_decode:
  "(accepted dial c msg w \<longrightarrow>
      Routes (handleMessage env dial c (Some msg) w) = Update (Sender msg) (Routes w))
   \<and> (\<not> accepted dial c msg w \<longrightarrow>
        Routes (handleMessage env dial c (Some msg) w) = Routes w
        \<and> handled (handleMessage env dial c (Some msg) w) = handled w)
   \<and> (UnmarshalAny env (Message msg) = None \<longrightarrow>
        handled (handleMessage env dial c (Some msg) w) = handled w)"
proof (cases "ClientId (clients w c)")
  case None
  define w0 where "w0 = setClient c ((clients w c)\<lparr>ClientId := Some (Sender msg)\<rparr>) w"
  obtain r w' where e: "establishConnection dial (Address (Sender msg)) c w0 = (r, w')"
    by (cases "establishConnection dial (Address (Sender msg)) c w0")
  have fr: "Routes w' = Routes w" "handled w' = handled w"
    using establishConnection_frame [OF e] by (simp_all add: w0_def setClient_def)
  have hm: "handleMessage env dial c (Some msg) w =
              (case r of Some err \<Rightarrow> w' | None \<Rightarrow> handleMessage_dispatch env c msg (Sender msg) w')"
    using None e by (simp add: handleMessage_def Let_def w0_def [symmetric])
  have sess: "Session (clients w0 c) = Session (clients w c)"
    by (simp add: w0_def setClient_def)
  have yes: "Routes (handleMessage env dial c (Some msg) w) = Update (Sender msg) (Routes w)"
    if acc: "accepted dial c msg w"
  proof -
    from acc None obtain s where s: "Session (clients w c) = None"
      "dial (Address (Sender msg)) = Connected s"
      by (auto simp: accepted_def split: DialOutcome.splits)
    have "Session (clients w0 c) = None" using s(1) sess by simp
    then have "fst (establishConnection dial (Address (Sender msg)) c w0) = None"
      using s(2) by (rule establishConnection_connects)
    with e have "r = None" by simp
    then show ?thesis using hm fr by (simp add: handleMessage_dispatch_Routes)
  qed
  have no: "Routes (handleMessage env dial c (Some msg) w) = Routes w
            \<and> handled (handleMessage env dial c (Some msg) w) = handled w"
    if nacc: "\<not> accepted dial c msg w"
  proof -
    from nacc None have "Session (clients w c) \<noteq> None
        \<or> (\<forall>s. dial (Address (Sender msg)) \<noteq> Connected s)"
      by (auto simp: accepted_def split: DialOutcome.splits)
    then have "Session (clients w0 c) \<noteq> None \<or> (\<forall>s. dial (Address (Sender msg)) \<noteq> Connected s)"
      using sess by simp
    then have "fst (establishConnection dial (Address (Sender msg)) c w0) \<noteq> None"
      by (rule establishConnection_refuses)
    with e obtain err where "r = Some err" by auto
    then show ?thesis using hm fr by simp
  qed
  have und: "handled (handleMessage env dial c (Some msg) w) = handled w"
    if decode: "UnmarshalAny env (Message msg) = None"
    using hm fr handleMessage_dispatch_undecodable [OF decode]
    by (cases r) simp_all
  from yes no und show ?thesis by blast
next
  case (Some cid)
  show ?thesis
  proof (cases "Equals cid (Sender msg)")
    case True
    then have hm: "handleMessage env dial c (Some msg) w
                     = handleMessage_dispatch env c msg (Sender msg) w"
      using Some by (simp add: handleMessage_def Let_def)
    have "accepted dial c msg w" using Some True by (simp add: accepted_def)
    then show ?thesis
      using hm handleMessage_dispatch_undecodable [of env msg c "Sender msg" w]
      by (simp add: handleMessage_dispatch_Routes)
  next
    case False
    then have "handleMessage env dial c (Some msg) w = w"
      using Some by (simp add: handleMessage_def Let_def)
    moreover have "\<not> accepted dial c msg w" using Some False by (simp add: accepted_def)
    ultimately show ?thesis by simp
  qed
qed

text \<open>
  Client 0 bound to peer Z gets an envelope of Z that does not decode, one of Z that
  decodes and one of peer Y; and an unbound client gets a first envelope of Z, the dial
  back to Z opening a session.
\<close>

theorem routing_update_precedes_decode_witness:
  "accepted (\<lambda>a. DialFails) 0 (envelope peerZ ''junk'') boundNode
   \<and> UnmarshalAny sampleEnv (Message (envelope peerZ ''junk'')) = None
   \<and> Routes (handleMessage sampleEnv (\<lambda>a. DialFails) 0 (Some (envelope peerZ ''junk'')) boundNode)
       = [peerZ]
   \<and> handled (handleMessage sampleEnv (\<lambda>a. DialFails) 0 (Some (envelope peerZ ''junk'')) boundNode)
       = []
   \<and> accepted (\<lambda>a. DialFails) 0 (envelope peerZ ''ping'') boundNode
   \<and> Routes (handleMessage sampleEnv (\<lambda>a. DialFails) 0 (Some (envelope peerZ ''ping'')) boundNode)
       = [peerZ]
   \<and> \<not> accepted (\<lambda>a. DialFails) 0 (envelope peerY ''ping'') boundNode
   \<and> Routes (handleMessage sampleEnv (\<lambda>a. DialFails) 0 (Some (envelope peerY ''ping'')) boundNode)
       = []
   \<and> accepted (\<lambda>a. if a = ''127.0.0.1:3001'' then Connected 1 else DialFails) 0
        (envelope peerZ ''junk'') sampleNode
   \<and> Routes (handleMessage sampleEnv (\<lambda>a. if a = ''127.0.0.1:3001'' then Connected 1 else DialFails)
        0 (Some (envelope peerZ ''junk'')) sampleNode) = [peerZ]"
proof -
  have acc1: "accepted (\<lambda>a. DialFails) 0 (envelope peerZ ''junk'') boundNode"
    and acc2: "accepted (\<lambda>a. DialFails) 0 (envelope peerZ ''ping'') boundNode"
    and nacc: "\<not> accepted (\<lambda>a. DialFails) 0 (envelope peerY ''ping'') boundNode"
    by (simp_all add: accepted_def boundNode_def setClient_def Equals_def envelope_def
        peerZ_def peerY_def)
  have acc3: "accepted (\<lambda>a. if a = ''127.0.0.1:3001'' then Connected 1 else DialFails) 0
        (envelope peerZ ''junk'') sampleNode"
    by (simp add: accepted_def sampleNode_def envelope_def peerZ_def)
  have decode: "UnmarshalAny sampleEnv (Message (envelope peerZ ''junk'')) = None"
    by (simp add: sampleEnv_def envelope_def)
  have r: "Routes boundNode = []" "handled boundNode = []" "Routes sampleNode = []"
    by (simp_all add: boundNode_def setClient_def sampleNode_def)
  have u: "Update (Sender (envelope peerZ ''junk'')) [] = [peerZ]"
    "Update (Sender (envelope peerZ ''ping'')) [] = [peerZ]"
    by (simp_all add: Update_def envelope_def)
  show ?thesis
    using acc1 acc2 nacc acc3 decode
      routing_update_precedes_decode [of "\<lambda>a. DialFails" 0 "envelope peerZ ''junk''" boundNode sampleEnv]
      routing_update_precedes_decode [of "\<lambda>a. DialFails" 0 "envelope peerZ ''ping''" boundNode sampleEnv]
      routing_update_precedes_decode [of "\<lambda>a. DialFails" 0 "envelope peerY ''ping''" boundNode sampleEnv]
      routing_update_precedes_decode [of "\<lambda>a. if a = ''127.0.0.1:3001'' then Connected 1 else DialFails"
        0 "envelope peerZ ''junk''" sampleNode sampleEnv]
    by (simp add: r u)
qed

text \<open>
  Claim C6, as stated, has no update of the routing table for an envelope whose body
  fails to decode. Client 0 is bound to peer Z, so that no dial is made; the body of
  the envelope of Z does not decode, and the empty routing table gets Z.
\<close>

theorem undecodable_body_updates_routes:
  "UnmarshalAny sampleEnv (Message (envelope peerZ ''junk'')) = None
   \<and> Routes boundNode = []
   \<and> ClientId (clients boundNode 0) = Some peerZ
   \<and> Routes (handleMessage sampleEnv (\<lambda>a. DialFails) 0 (Some (envelope peerZ ''junk'')) boundNode)
       = [peerZ]"
  by (simp add: handleMessage_def handleMessage_dispatch_def boundNode_def setClient_def
      sampleEnv_def sampleNode_def envelope_def Update_def Equals_def Let_def)

section \<open>Properties of reconnection\<close>

lemma establishConnection_fails:
  assumes "Session (clients w c) = None" and "\<forall>s. dial a \<noteq> Connected s"
  shows "\<exists>err w'. establishConnection dial a c w = (Some err, w')
           \<and> Routes w' = Routes w \<and> Peers w' = Peers w
           \<and> ClientId (clients w' c) = ClientId (clients w c)
           \<and> Session (clients w' c) = None
           \<and> Backoff (clients w' c) = Backoff (clients w c)
           \<and> closedSessions w' = closedSessions w
           \<and> dialCalls w' = dialCalls w @ [a]
           \<and> sleeps w' = sleeps w"
  using assms
  by (cases "dial a") (simp_all add: establishConnection_def setClient_def Let_def)

lemma failed_attempt:
  assumes "Session (clients w c) = None" and "\<forall>s. dial a \<noteq> Connected s"
  shows "\<exists>err w1 d w2. establishConnection dial a c w = (Some err, w1)
           \<and> Backoff_Duration env c w1 = (d, w2)
           \<and> Routes (Sleep d w2) = Routes w \<and> Peers (Sleep d w2) = Peers w
           \<and> ClientId (clients (Sleep d w2) c) = ClientId (clients w c)
           \<and> Session (clients (Sleep d w2) c) = None
           \<and> Backoff (clients (Sleep d w2) c) = Suc (Backoff (clients w c))
           \<and> closedSessions (Sleep d w2) = closedSessions w
           \<and> dialCalls (Sleep d w2) = dialCalls w @ [a]
           \<and> sleeps (Sleep d w2) = sleeps w @ [ForAttempt env (Backoff (clients w c))]"
proof -
  from establishConnection_fails [where dial = dial and a = a, OF assms] obtain err w1 where
    e: "establishConnection dial a c w = (Some err, w1)"
    and f: "Routes w1 = Routes w" "Peers w1 = Peers w"
      "ClientId (clients w1 c) = ClientId (clients w c)" "Session (clients w1 c) = None"
      "Backoff (clients w1 c) = Backoff (clients w c)" "closedSessions w1 = closedSessions w"
      "dialCalls w1 = dialCalls w @ [a]" "sleeps w1 = sleeps w"
    by blast
  show ?thesis
    using e f by (simp add: Backoff_Duration_def Sleep_def setClient_def)
qed

lemma reestablish_loop_all_fail:
  assumes "n = maxAttempts - a" and "a \<le> maxAttempts"
    and "ClientId (clients w c) = Some pid" and "Session (clients w c) = None"
    and "\<forall>i. a < i \<and> i \<le> maxAttempts \<longrightarrow> (\<forall>s. dials i (Address pid) \<noteq> Connected s)"
  shows "\<exists>w'. reestablish_loop env dials a c w = (Some Unreachable, PeerClient_close c w')
           \<and> Routes w' = Routes w \<and> Peers w' = Peers w
           \<and> ClientId (clients w' c) = Some pid
           \<and> Session (clients w' c) = None
           \<and> closedSessions w' = closedSessions w
           \<and> dialCalls w' = dialCalls w @ replicate n (Address pid)
           \<and> sleeps w' = sleeps w @ map (ForAttempt env) [Backoff (clients w c) ..< Backoff (clients w c) + n]"
  using assms
proof (induction n arbitrary: a w)
  case 0
  then have "a \<ge> maxAttempts" by simp
  then have "reestablish_loop env dials a c w = (Some Unreachable, PeerClient_close c w)"
    by (simp add: reestablish_loop.simps)
  then show ?case using 0 by auto
next
  case (Suc n)
  then have lt: "\<not> a \<ge> maxAttempts" by simp
  have nf: "\<forall>s. dials (a + 1) (Address pid) \<noteq> Connected s"
    using Suc.prems lt by simp
  from failed_attempt [where dial = "dials (a + 1)" and a = "Address pid" and env = env, OF Suc.prems(4) nf] obtain err w1 d w2 where
    e: "establishConnection (dials (a + 1)) (Address pid) c w = (Some err, w1)"
    and b: "Backoff_Duration env c w1 = (d, w2)"
    and f: "Routes (Sleep d w2) = Routes w" "Peers (Sleep d w2) = Peers w"
      "ClientId (clients (Sleep d w2) c) = ClientId (clients w c)"
      "Session (clients (Sleep d w2) c) = None"
      "Backoff (clients (Sleep d w2) c) = Suc (Backoff (clients w c))"
      "closedSessions (Sleep d w2) = closedSessions w"
      "dialCalls (Sleep d w2) = dialCalls w @ [Address pid]"
      "sleeps (Sleep d w2) = sleeps w @ [ForAttempt env (Backoff (clients w c))]"
    by blast
  have step: "reestablish_loop env dials a c w = reestablish_loop env dials (a + 1) c (Sleep d w2)"
    using lt Suc.prems(3) e b by (subst reestablish_loop.simps) simp
  have "\<exists>w'. reestablish_loop env dials (a + 1) c (Sleep d w2) = (Some Unreachable, PeerClient_close c w')
           \<and> Routes w' = Routes (Sleep d w2) \<and> Peers w' = Peers (Sleep d w2)
           \<and> ClientId (clients w' c) = Some pid
           \<and> Session (clients w' c) = None
           \<and> closedSessions w' = closedSessions (Sleep d w2)
           \<and> dialCalls w' = dialCalls (Sleep d w2) @ replicate n (Address pid)
           \<and> sleeps w' = sleeps (Sleep d w2) @ map (ForAttempt env)
                 [Backoff (clients (Sleep d w2) c) ..< Backoff (clients (Sleep d w2) c) + n]"
  proof (rule Suc.IH)
    show "n = maxAttempts - (a + 1)" using Suc.prems(1) by simp
    show "a + 1 \<le> maxAttempts" using lt by simp
    show "ClientId (clients (Sleep d w2) c) = Some pid" using f(3) Suc.prems(3) by simp
    show "Session (clients (Sleep d w2) c) = None" by (rule f(4))
    show "\<forall>i. a + 1 < i \<and> i \<le> maxAttempts \<longrightarrow> (\<forall>s. dials i (Address pid) \<noteq> Connected s)"
      using Suc.prems(5) by simp
  qed
  then obtain w' where r: "reestablish_loop env dials (a + 1) c (Sleep d w2) = (Some Unreachable, PeerClient_close c w')"
    "Routes w' = Routes w" "Peers w' = Peers w" "ClientId (clients w' c) = Some pid"
    "Session (clients w' c) = None" "closedSessions w' = closedSessions w"
    "dialCalls w' = (dialCalls w @ [Address pid]) @ replicate n (Address pid)"
    "sleeps w' = (sleeps w @ [ForAttempt env (Backoff (clients w c))]) @ map (ForAttempt env)
                 [Suc (Backoff (clients w c)) ..< Suc (Backoff (clients w c)) + n]"
    using f by auto
  have d: "dialCalls w' = dialCalls w @ replicate (Suc n) (Address pid)"
    using r(7) by (simp add: replicate_app_Cons_same)
  have s: "sleeps w' = sleeps w @ map (ForAttempt env) [Backoff (clients w c) ..< Backoff (clients w c) + Suc n]"
    using r(8) by (simp add: upt_rec [of "Backoff (clients w c)"])
  show ?case using step r(1-6) d s by auto
qed


lemma establishConnection_dialCalls:
  "establishConnection dial a c w = (r, w') \<Longrightarrow> length (dialCalls w') \<le> Suc (length (dialCalls w))"
  by (auto simp: establishConnection_def setClient_def Let_def split: if_splits DialOutcome.splits)

lemma PeerClient_close_frame:
  "dialCalls (PeerClient_close c w) = dialCalls w \<and> Peers (PeerClient_close c w) = Peers w
   \<and> clients (PeerClient_close c w) = clients w \<and> sleeps (PeerClient_close c w) = sleeps w
   \<and> closedSessions (PeerClient_close c w) = closedSessions w"
  by (simp add: PeerClient_close_def split: option.splits)

lemma PeerClient_close_removes:
  "ClientId (clients w c) = Some pid \<Longrightarrow> \<not> PeerExists (Routes (PeerClient_close c w)) pid"
  by (simp add: PeerClient_close_def PeerExists_def RemovePeer_def)

lemma reestablish_loop_dialCalls:
  "length (dialCalls (snd (reestablish_loop env dials a c w))) \<le> length (dialCalls w) + (maxAttempts - a)"
proof (induction env dials a c w rule: reestablish_loop.induct)
  case (1 env dials attempt c w)
  show ?case
  proof (cases "attempt \<ge> maxAttempts")
    case True
    then show ?thesis
      by (subst reestablish_loop.simps) (simp add: PeerClient_close_frame)
  next
    case False
    show ?thesis
    proof (cases "ClientId (clients w c)")
      case None
      then show ?thesis using False by (subst reestablish_loop.simps) simp
    next
      case (Some pid)
      obtain r w1 where e: "establishConnection (dials (attempt + 1)) (Address pid) c w = (r, w1)"
        by (cases "establishConnection (dials (attempt + 1)) (Address pid) c w")
      note dc = establishConnection_dialCalls [OF e]
      show ?thesis
      proof (cases r)
        case None
        then show ?thesis using False Some e dc by (subst reestablish_loop.simps) simp
      next
        case (Some err)
        obtain d w2 where b: "Backoff_Duration env c w1 = (d, w2)"
          by (cases "Backoff_Duration env c w1")
        have same: "dialCalls (Sleep d w2) = dialCalls w1"
          using b by (auto simp: Backoff_Duration_def Sleep_def setClient_def)
        have "length (dialCalls (snd (reestablish_loop env dials (attempt + 1) c (Sleep d w2))))
                \<le> length (dialCalls (Sleep d w2)) + (maxAttempts - (attempt + 1))"
          using "1.IH" [OF False \<open>ClientId (clients w c) = Some pid\<close> e [symmetric] _ b [symmetric]] Some
          by simp
        moreover have "reestablish_loop env dials attempt c w
                         = reestablish_loop env dials (attempt + 1) c (Sleep d w2)"
          using False \<open>ClientId (clients w c) = Some pid\<close> e Some b
          by (subst reestablish_loop.simps) simp
        ultimately show ?thesis using same dc False by simp
      qed
    qed
  qed
qed


text \<open>
  Claim C4, as the code has it. \<^verbatim>\<open>reestablishConnection\<close> dials at most 5 times.
  When the client has its ID, closing its session succeeds and all 5 dials fail, it
  has dialled the address of the ID 5 times and slept the backoff duration after each
  failure; it returns the unreachable error after \<^verbatim>\<open>close()\<close>, so that the ID is not in
  the routing table; the client has no session and the session it had is closed; and
  the peers of the node are as they were: \<^verbatim>\<open>close()\<close> does not touch them.
\<close>

theorem reconnect_exhaustion:
  "length (dialCalls (snd (reestablishConnection env closeOk dials c w)))
     \<le> length (dialCalls w) + maxAttempts
   \<and> (ClientId (clients w c) = Some pid \<and> closeOk
        \<and> (\<forall>i. 1 \<le> i \<and> i \<le> maxAttempts \<longrightarrow> (\<forall>s. dials i (Address pid) \<noteq> Connected s))
      \<longrightarrow> fst (reestablishConnection env closeOk dials c w) = Some Unreachable
        \<and> dialCalls (snd (reestablishConnection env closeOk dials c w))
            = dialCalls w @ replicate maxAttempts (Address pid)
        \<and> sleeps (snd (reestablishConnection env closeOk dials c w))
            = sleeps w @ map (ForAttempt env) [0 ..< maxAttempts]
        \<and> \<not> PeerExists (Routes (snd (reestablishConnection env closeOk dials c w))) pid
        \<and> Session (clients (snd (reestablishConnection env closeOk dials c w)) c) = None
        \<and> (\<forall>s. Session (clients w c) = Some s
              \<longrightarrow> s \<in> set (closedSessions (snd (reestablishConnection env closeOk dials c w))))
        \<and> Peers (snd (reestablishConnection env closeOk dials c w)) = Peers w)"
proof
  define w1 where "w1 = (case Session (clients w c) of
      Some s \<Rightarrow> if s \<notin> set (closedSessions w) then w\<lparr>closedSessions := closedSessions w @ [s]\<rparr> else w
    | None \<Rightarrow> w)"
  define w2 where "w2 = setClient c ((clients w1 c)\<lparr>Backoff := 0, Session := None\<rparr>) w1"
  have w1: "dialCalls w1 = dialCalls w" "Peers w1 = Peers w" "clients w1 = clients w"
    "sleeps w1 = sleeps w" "Routes w1 = Routes w"
    "\<forall>s. Session (clients w c) = Some s \<longrightarrow> s \<in> set (closedSessions w1)"
    by (auto simp: w1_def split: option.splits)
  have w2: "dialCalls w2 = dialCalls w" "Peers w2 = Peers w" "sleeps w2 = sleeps w"
    "Routes w2 = Routes w" "closedSessions w2 = closedSessions w1"
    "ClientId (clients w2 c) = ClientId (clients w c)" "Session (clients w2 c) = None"
    "Backoff (clients w2 c) = 0"
    using w1 by (simp_all add: w2_def setClient_def)
  show "length (dialCalls (snd (reestablishConnection env closeOk dials c w)))
          \<le> length (dialCalls w) + maxAttempts"
  proof (cases "\<exists>s. Session (clients w c) = Some s \<and> s \<notin> set (closedSessions w) \<and> \<not> closeOk")
    case True
    then have "reestablishConnection env closeOk dials c w = (Some SessionCloseError, w)"
      by (auto simp: reestablishConnection_def)
    then show ?thesis by simp
  next
    case False
    then have "reestablishConnection env closeOk dials c w = reestablish_loop env dials 0 c w2"
      by (auto simp: reestablishConnection_def w2_def w1_def split: option.splits)
    then show ?thesis
      using reestablish_loop_dialCalls [of env dials 0 c w2] w2(1) by simp
  qed
  show "ClientId (clients w c) = Some pid \<and> closeOk
        \<and> (\<forall>i. 1 \<le> i \<and> i \<le> maxAttempts \<longrightarrow> (\<forall>s. dials i (Address pid) \<noteq> Connected s))
      \<longrightarrow> fst (reestablishConnection env closeOk dials c w) = Some Unreachable
        \<and> dialCalls (snd (reestablishConnection env closeOk dials c w))
            = dialCalls w @ replicate maxAttempts (Address pid)
        \<and> sleeps (snd (reestablishConnection env closeOk dials c w))
            = sleeps w @ map (ForAttempt env) [0 ..< maxAttempts]
        \<and> \<not> PeerExists (Routes (snd (reestablishConnection env closeOk dials c w))) pid
        \<and> Session (clients (snd (reestablishConnection env closeOk dials c w)) c) = None
        \<and> (\<forall>s. Session (clients w c) = Some s
              \<longrightarrow> s \<in> set (closedSessions (snd (reestablishConnection env closeOk dials c w))))
        \<and> Peers (snd (reestablishConnection env closeOk dials c w)) = Peers w"
  proof
    assume a: "ClientId (clients w c) = Some pid \<and> closeOk
        \<and> (\<forall>i. 1 \<le> i \<and> i \<le> maxAttempts \<longrightarrow> (\<forall>s. dials i (Address pid) \<noteq> Connected s))"
    then have r: "reestablishConnection env closeOk dials c w = reestablish_loop env dials 0 c w2"
      by (auto simp: reestablishConnection_def w2_def w1_def split: option.splits)
    have "\<exists>w'. reestablish_loop env dials 0 c w2 = (Some Unreachable, PeerClient_close c w')
           \<and> Routes w' = Routes w2 \<and> Peers w' = Peers w2
           \<and> ClientId (clients w' c) = Some pid
           \<and> Session (clients w' c) = None
           \<and> closedSessions w' = closedSessions w2
           \<and> dialCalls w' = dialCalls w2 @ replicate maxAttempts (Address pid)
           \<and> sleeps w' = sleeps w2 @ map (ForAttempt env)
                [Backoff (clients w2 c) ..< Backoff (clients w2 c) + maxAttempts]"
      using a w2(6,7)
      by (intro reestablish_loop_all_fail) simp_all
    then obtain w' where l: "reestablish_loop env dials 0 c w2 = (Some Unreachable, PeerClient_close c w')"
      "Peers w' = Peers w" "ClientId (clients w' c) = Some pid" "Session (clients w' c) = None"
      "closedSessions w' = closedSessions w1"
      "dialCalls w' = dialCalls w @ replicate maxAttempts (Address pid)"
      "sleeps w' = sleeps w @ map (ForAttempt env) [0 ..< maxAttempts]"
      using w2 by auto
    show "fst (reestablishConnection env closeOk dials c w) = Some Unreachable
        \<and> dialCalls (snd (reestablishConnection env closeOk dials c w))
            = dialCalls w @ replicate maxAttempts (Address pid)
        \<and> sleeps (snd (reestablishConnection env closeOk dials c w))
            = sleeps w @ map (ForAttempt env) [0 ..< maxAttempts]
        \<and> \<not> PeerExists (Routes (snd (reestablishConnection env closeOk dials c w))) pid
        \<and> Session (clients (snd (reestablishConnection env closeOk dials c w)) c) = None
        \<and> (\<forall>s. Session (clients w c) = Some s
              \<longrightarrow> s \<in> set (closedSessions (snd (reestablishConnection env closeOk dials c w))))
        \<and> Peers (snd (reestablishConnection env closeOk dials c w)) = Peers w"
      using r l w1(6) PeerClient_close_removes [OF l(3)]
      by (simp add: PeerClient_close_frame)
  qed
qed

text \<open>
  Client 0 of the sample cluster, known to the routing table, with every dial failing.
\<close>

theorem reconnect_exhaustion_witness:
  "ClientId (clients (sampleCluster\<lparr>Routes := [peerAt 0]\<rparr>) 0) = Some (peerAt 0)
   \<and> fst (reestablishConnection sampleEnv True (\<lambda>i a. DialFails) 0
            (sampleCluster\<lparr>Routes := [peerAt 0]\<rparr>)) = Some Unreachable
   \<and> sleeps (snd (reestablishConnection sampleEnv True (\<lambda>i a. DialFails) 0
            (sampleCluster\<lparr>Routes := [peerAt 0]\<rparr>))) = [100, 200, 400, 800, 1600]
   \<and> \<not> PeerExists (Routes (snd (reestablishConnection sampleEnv True (\<lambda>i a. DialFails) 0
            (sampleCluster\<lparr>Routes := [peerAt 0]\<rparr>)))) (peerAt 0)
   \<and> 0 \<in> set (closedSessions (snd (reestablishConnection sampleEnv True (\<lambda>i a. DialFails) 0
            (sampleCluster\<lparr>Routes := [peerAt 0]\<rparr>))))"
proof -
  have idset: "ClientId (clients (sampleCluster\<lparr>Routes := [peerAt 0]\<rparr>) 0) = Some (peerAt 0)"
    by (simp add: sampleCluster_def)
  have sess: "Session (clients (sampleCluster\<lparr>Routes := [peerAt 0]\<rparr>) 0) = Some 0"
    by (simp add: sampleCluster_def)
  have allfail: "\<forall>i. 1 \<le> i \<and> i \<le> maxAttempts \<longrightarrow>
      (\<forall>s. (\<lambda>i a. DialFails) i (Address (peerAt 0)) \<noteq> Connected s)"
    by simp
  have sl: "sleeps (sampleCluster\<lparr>Routes := [peerAt 0]\<rparr>) = []"
    by (simp add: sampleCluster_def sampleNode_def)
  have fa: "map (ForAttempt sampleEnv) [0 ..< maxAttempts] = [100, 200, 400, 800, 1600]"
    by (simp add: sampleEnv_def maxAttempts_def upt_rec)
  show ?thesis
    using idset sess allfail sl fa
      reconnect_exhaustion [of sampleEnv True "\<lambda>i a. DialFails" 0
        "sampleCluster\<lparr>Routes := [peerAt 0]\<rparr>" "peerAt 0"]
    by simp
qed

text \<open>
  Claim C4, as stated, has the entry of the client removed from the peers on
  exhaustion. Here every dial fails, the error is returned, and the peers still hold
  client 0 at its address.
\<close>

theorem reconnect_exhaustion_keeps_peers_entry:
  "fst (reestablishConnection sampleEnv True (\<lambda>i a. DialFails) 0
          (sampleCluster\<lparr>Routes := [peerAt 0]\<rparr>)) = Some Unreachable
   \<and> Load (Peers (snd (reestablishConnection sampleEnv True (\<lambda>i a. DialFails) 0
          (sampleCluster\<lparr>Routes := [peerAt 0]\<rparr>)))) ''peer0'' = Some (Some 0)"
  by code_simp

section \<open>Properties of the random broadcast\<close>

lemma sint_times_3: "0 \<le> sint (K :: GoInt) \<Longrightarrow> sint (K * 3) \<le> 3 * sint K"
proof -
  assume nn: "0 \<le> sint K"
  have "sint (K * 3) = signed_take_bit 63 (sint K * 3)"
    by (simp add: sint_word_ariths)
  also have "\<dots> \<le> sint K * 3"
    using nn by (simp add: signed_take_bit_int_less_eq_self_iff)
  finally show ?thesis by simp
qed

lemma sint_of_nat_small:
  "int n < 2 ^ 63 \<Longrightarrow> sint (of_nat n :: GoInt) = int n"
  by (simp add: signed_of_nat signed_take_bit_int_eq_self)

lemma scan_Inl: "BroadcastRandomly_scan w K rest acc = Inl e \<Longrightarrow> e = NilDereference"
  by (induction rest arbitrary: acc)
     (auto simp: Let_def split: option.splits if_splits)

lemma scan_bound:
  assumes "list_all (\<lambda>e. case snd e of None \<Rightarrow> False | Some c \<Rightarrow> ClientId (clients w c) \<noteq> None) rest"
  shows "\<exists>r. BroadcastRandomly_scan w K rest acc = Inr r
           \<and> length r \<le> length acc + length rest
           \<and> int (length r) \<le> max (int (length acc) + 1) (sint (K * 3) + 1)"
  using assms
proof (induction rest arbitrary: acc)
  case Nil
  then show ?case by simp
next
  case (Cons e rest)
  obtain key client where e: "e = (key, client)" by (cases e)
  from Cons.prems e obtain c pid where c: "client = Some c" "ClientId (clients w c) = Some pid"
    by (auto split: option.splits)
  have rest: "list_all (\<lambda>e. case snd e of None \<Rightarrow> False | Some c \<Rightarrow> ClientId (clients w c) \<noteq> None) rest"
    using Cons.prems by simp
  show ?case
  proof (cases "int (length (acc @ [Address pid])) > sint (K * 3)")
    case True
    then have "BroadcastRandomly_scan w K (e # rest) acc = Inr (acc @ [Address pid])"
      using e c by (simp add: Let_def)
    then show ?thesis by simp
  next
    case False
    then have eq: "BroadcastRandomly_scan w K (e # rest) acc
                 = BroadcastRandomly_scan w K rest (acc @ [Address pid])"
      using e c by (simp add: Let_def)
    from Cons.IH [OF rest, of "acc @ [Address pid]"] obtain r where
      r: "BroadcastRandomly_scan w K rest (acc @ [Address pid]) = Inr r"
         "length r \<le> length (acc @ [Address pid]) + length rest"
         "int (length r) \<le> max (int (length (acc @ [Address pid])) + 1) (sint (K * 3) + 1)"
      by blast
    have "int (length r) \<le> max (int (length acc) + 1) (sint (K * 3) + 1)"
      using r(3) False by simp
    then show ?thesis using eq r(1,2) by simp
  qed
qed

lemma swap_length: "length (swap i j xs) = length xs"
  by (simp add: swap_def)

lemma Shuffle_loop_length: "length (Shuffle_loop rnd i xs) = length xs"
  by (induction i arbitrary: xs) (simp_all add: swap_length)

lemma Shuffle_length: "length (Shuffle rnd n xs) = length xs"
  by (simp add: Shuffle_def Shuffle_loop_length)

lemma BroadcastByAddresses_bound:
  assumes "peersHaveIds w"
  shows "\<exists>w'. BroadcastByAddresses send message addresses w = Inr w'
           \<and> length (tellCalls w') \<le> length (tellCalls w) + length addresses
           \<and> Peers w' = Peers w"
  using assms
proof (induction addresses arbitrary: w)
  case Nil
  then show ?case by simp
next
  case (Cons a addresses)
  show ?case
  proof (cases "Load (Peers w) a")
    case None
    then show ?thesis using Cons.IH [OF Cons.prems] by auto
  next
    case (Some client)
    then have "(a, client) \<in> set (Peers w)"
      by (simp add: Load_def map_of_SomeD)
    then obtain c where c: "client = Some c" "ClientId (clients w c) \<noteq> None"
      using Cons.prems by (auto simp: peersHaveIds_def list_all_iff split: option.splits)
    obtain err w1 where t: "Tell send message c w = (err, w1)"
      by (cases "Tell send message c w")
    have w1: "clients w1 = clients w" "Peers w1 = Peers w"
      "length (tellCalls w1) = Suc (length (tellCalls w))"
      using t by (auto simp: Tell_def Let_def split: if_splits)
    have "clients (Redial c w1) = clients w" "Peers (Redial c w1) = Peers w"
      using w1 by (simp_all add: Redial_def)
    then have ph: "peersHaveIds (Redial c w1)"
      using Cons.prems by (simp only: peersHaveIds_def)
    from Cons.IH [OF ph] obtain w' where
      w': "BroadcastByAddresses send message addresses (Redial c w1) = Inr w'"
          "length (tellCalls w') \<le> length (tellCalls (Redial c w1)) + length addresses"
          "Peers w' = Peers (Redial c w1)"
      by blast
    have "BroadcastByAddresses send message (a # addresses) w = Inr w'"
      using Some c t w1(1) w'(1) by simp
    moreover have "length (tellCalls w') \<le> length (tellCalls w) + length (a # addresses)"
      using w'(2) w1(3) by (simp add: Redial_def)
    moreover have "Peers w' = Peers w"
      using w'(3) w1(2) by (simp add: Redial_def)
    ultimately show ?thesis by blast
  qed
qed

lemma sample_nonneg:
  assumes ph: "peersHaveIds w" and nn: "0 \<le> sint K"
  shows "\<exists>gathered chosen. BroadcastRandomly_scan w K (Peers w) [] = Inr gathered
          \<and> int (length gathered) \<le> 3 * sint K + 1
          \<and> length gathered \<le> length (Peers w)
          \<and> BroadcastRandomly_sample rnd K w = Inr chosen
          \<and> int (length chosen) = min (sint K) (int (length gathered))"
proof -
  from scan_bound [of w "Peers w" K "[]"] ph obtain g where
    g: "BroadcastRandomly_scan w K (Peers w) [] = Inr g" "length g \<le> length (Peers w)"
       "int (length g) \<le> max 1 (sint (K * 3) + 1)"
    by (auto simp: peersHaveIds_def)
  have b: "int (length g) \<le> 3 * sint K + 1"
    using g(3) sint_times_3 [OF nn] nn by simp
  define a where "a = Shuffle rnd (length g) g"
  have la: "length a = length g" by (simp add: a_def Shuffle_length)
  have "\<exists>chosen. BroadcastRandomly_sample rnd K w = Inr chosen
          \<and> int (length chosen) = min (sint K) (int (length g))"
  proof (cases "int (length a) < sint K")
    case True
    have "sint K < 2 ^ 63" using sint_lt [of K] by simp
    then have "int (length a) < 2 ^ 63" using True by simp
    then have s: "sint (of_nat (length a) :: GoInt) = int (length a)"
      by (rule sint_of_nat_small)
    have "BroadcastRandomly_sample rnd K w = Inr (take (length a) a)"
      using g(1) True s by (simp add: BroadcastRandomly_sample_def a_def [symmetric] Let_def slice_to_def)
    then show ?thesis using True la by simp
  next
    case False
    then have "BroadcastRandomly_sample rnd K w = Inr (take (nat (sint K)) a)"
      using g(1) nn by (simp add: BroadcastRandomly_sample_def a_def [symmetric] Let_def slice_to_def)
    then show ?thesis using False la nn by simp
  qed
  then show ?thesis using g(1,2) b by blast
qed

text \<open>
  Claim C7, as the code has it. The callback of the scan stops the traversal when the
  addresses gathered are \<^emph>\<open>more\<close> than \<open>3K\<close>. For every message, every \<open>K \<ge> 0\<close> and
  every node whose peers all have their IDs: the scan gathers at most \<open>3K + 1\<close>
  addresses and no more than there are peers; \<^verbatim>\<open>BroadcastRandomly\<close> returns, and it has
  invoked \<^verbatim>\<open>Tell\<close> at most \<open>min(K, |peers|)\<close> times.
\<close>

theorem BroadcastRandomly_bound:
  assumes ph: "peersHaveIds w" and nn: "0 \<le> sint K"
  shows "\<exists>gathered w'. BroadcastRandomly_scan w K (Peers w) [] = Inr gathered
          \<and> int (length gathered) \<le> 3 * sint K + 1
          \<and> length gathered \<le> length (Peers w)
          \<and> BroadcastRandomly send rnd message K w = Inr w'
          \<and> int (length (tellCalls w')) - int (length (tellCalls w))
              \<le> min (sint K) (int (length (Peers w)))"
proof -
  from sample_nonneg [OF ph nn, of rnd] obtain g chosen where
    s: "BroadcastRandomly_scan w K (Peers w) [] = Inr g" "int (length g) \<le> 3 * sint K + 1"
       "length g \<le> length (Peers w)" "BroadcastRandomly_sample rnd K w = Inr chosen"
       "int (length chosen) = min (sint K) (int (length g))"
    by blast
  from BroadcastByAddresses_bound [OF ph, of send message chosen] obtain w' where
    w': "BroadcastByAddresses send message chosen w = Inr w'"
        "length (tellCalls w') \<le> length (tellCalls w) + length chosen"
    by blast
  have "BroadcastRandomly send rnd message K w = Inr w'"
    using s(4) w'(1) by (simp add: BroadcastRandomly_def)
  moreover have "int (length (tellCalls w')) - int (length (tellCalls w))
                   \<le> min (sint K) (int (length (Peers w)))"
  proof -
    have "int (length (tellCalls w')) \<le> int (length (tellCalls w)) + int (length chosen)"
      using w'(2) by linarith
    moreover have "int (length chosen) \<le> min (sint K) (int (length (Peers w)))"
      using s(5,3) by linarith
    ultimately show ?thesis by linarith
  qed
  ultimately show ?thesis using s(1,2,3) by blast
qed


text \<open>The sample cluster of five peers, with \<open>K = 1\<close>, a send that succeeds and a shuffle that draws 0.\<close>

theorem BroadcastRandomly_bound_witness:
  "peersHaveIds sampleCluster \<and> 0 \<le> sint (1 :: GoInt)
   \<and> (\<exists>gathered w'. BroadcastRandomly_scan sampleCluster 1 (Peers sampleCluster) [] = Inr gathered
          \<and> length gathered \<le> 4
          \<and> BroadcastRandomly (\<lambda>c. None) (\<lambda>i. 0) [7] 1 sampleCluster = Inr w'
          \<and> length (tellCalls w') \<le> 1)"
proof -
  have ph: "peersHaveIds sampleCluster"
    by code_simp
  have nn: "0 \<le> sint (1 :: GoInt)"
    by simp
  have t: "tellCalls sampleCluster = []" "length (Peers sampleCluster) = 5"
    by (simp_all add: sampleCluster_def sampleNode_def)
  from BroadcastRandomly_bound [OF ph nn, of "\<lambda>c. None" "\<lambda>i. 0" "[7]"] obtain gathered w' where
    "BroadcastRandomly_scan sampleCluster 1 (Peers sampleCluster) [] = Inr gathered"
    "int (length gathered) \<le> 3 * sint (1 :: GoInt) + 1"
    "BroadcastRandomly (\<lambda>c. None) (\<lambda>i. 0) [7] 1 sampleCluster = Inr w'"
    "int (length (tellCalls w')) - int (length (tellCalls sampleCluster))
       \<le> min (sint (1 :: GoInt)) (int (length (Peers sampleCluster)))"
    by blast
  then have "BroadcastRandomly_scan sampleCluster 1 (Peers sampleCluster) [] = Inr gathered
          \<and> length gathered \<le> 4
          \<and> BroadcastRandomly (\<lambda>c. None) (\<lambda>i. 0) [7] 1 sampleCluster = Inr w'
          \<and> length (tellCalls w') \<le> 1"
    using t by simp
  then show ?thesis using ph nn by blast
qed

text \<open>
  Claim C7, as stated, has the scan stop once \<open>3K\<close> addresses are gathered. With five
  peers and \<open>K = 1\<close> the scan gathers four addresses, one more than \<open>3K\<close>.
\<close>

theorem BroadcastRandomly_scan_gathers_one_more:
  "BroadcastRandomly_scan sampleCluster 1 (Peers sampleCluster) []
     = Inr [''peer0'', ''peer1'', ''peer2'', ''peer3'']
   \<and> length [''peer0'', ''peer1'', ''peer2'', ''peer3''] = 3 * 1 + 1"
  by code_simp

lemma sample_negative:
  assumes neg: "sint K < 0"
  shows "isl (BroadcastRandomly_sample rnd K w)
       \<and> (peersHaveIds w \<longrightarrow> BroadcastRandomly_sample rnd K w = Inl SliceBounds)"
proof (cases "BroadcastRandomly_scan w K (Peers w) []")
  case (Inl e)
  have "\<not> peersHaveIds w"
  proof
    assume "peersHaveIds w"
    then obtain r where "BroadcastRandomly_scan w K (Peers w) [] = Inr r"
      using scan_bound [of w "Peers w" K "[]"] by (auto simp: peersHaveIds_def)
    with Inl show False by simp
  qed
  then show ?thesis using Inl by (simp add: BroadcastRandomly_sample_def)
next
  case (Inr g)
  have "\<not> int (length (Shuffle rnd (length g) g)) < sint K"
    using neg by simp
  then have "BroadcastRandomly_sample rnd K w = Inl SliceBounds"
    using Inr neg by (simp add: BroadcastRandomly_sample_def Let_def slice_to_def)
  then show ?thesis by simp
qed

text \<open>
  Claim C10. For every negative \<open>K\<close> the cap on \<open>K\<close> does not fire and
  \<^verbatim>\<open>BroadcastRandomly\<close> ends in a panic: at the slice expression when the peers all
  have their IDs (the scan panics before it otherwise). For every \<open>K \<ge> 0\<close> the slice
  expression does not panic, and when the peers all have their IDs the addresses are
  taken.
\<close>

theorem BroadcastRandomly_slice_needs_nonnegative_K:
  "(sint K < 0 \<longrightarrow>
      isl (BroadcastRandomly_sample rnd K w)
      \<and> isl (BroadcastRandomly send rnd message K w)
      \<and> (peersHaveIds w \<longrightarrow> BroadcastRandomly_sample rnd K w = Inl SliceBounds))
   \<and> (0 \<le> sint K \<longrightarrow>
        BroadcastRandomly_sample rnd K w \<noteq> Inl SliceBounds
        \<and> (peersHaveIds w \<longrightarrow> \<not> isl (BroadcastRandomly_sample rnd K w)))"
proof (intro conjI impI)
  assume neg: "sint K < 0"
  show "isl (BroadcastRandomly_sample rnd K w)"
    using sample_negative [OF neg] by blast
  then show "isl (BroadcastRandomly send rnd message K w)"
    by (cases "BroadcastRandomly_sample rnd K w") (simp_all add: BroadcastRandomly_def)
  show "BroadcastRandomly_sample rnd K w = Inl SliceBounds" if "peersHaveIds w"
    using sample_negative [OF neg] that by blast
next
  assume nn: "0 \<le> sint K"
  show "\<not> isl (BroadcastRandomly_sample rnd K w)" if "peersHaveIds w"
    using sample_nonneg [OF that nn, of rnd] by auto
  show "BroadcastRandomly_sample rnd K w \<noteq> Inl SliceBounds"
  proof (cases "BroadcastRandomly_scan w K (Peers w) []")
    case (Inl e)
    then have "e = NilDereference" by (rule scan_Inl)
    then show ?thesis using Inl by (simp add: BroadcastRandomly_sample_def)
  next
    case (Inr g)
    define a where "a = Shuffle rnd (length g) g"
    show ?thesis
    proof (cases "int (length a) < sint K")
      case True
      have "sint K < 2 ^ 63" using sint_lt [of K] by simp
      then have "int (length a) < 2 ^ 63" using True by simp
      then have "sint (of_nat (length a) :: GoInt) = int (length a)"
        by (rule sint_of_nat_small)
      then show ?thesis
        using Inr True by (simp add: BroadcastRandomly_sample_def a_def [symmetric] Let_def slice_to_def)
    next
      case False
      then show ?thesis
        using Inr nn by (simp add: BroadcastRandomly_sample_def a_def [symmetric] Let_def slice_to_def)
    qed
  qed
qed

text \<open>The sample cluster with \<open>K = -1\<close> and with \<open>K = 2\<close>.\<close>

theorem BroadcastRandomly_slice_needs_nonnegative_K_witness:
  "sint (- 1 :: GoInt) < 0 \<and> 0 \<le> sint (2 :: GoInt) \<and> peersHaveIds sampleCluster
   \<and> BroadcastRandomly_sample (\<lambda>i. 0) (- 1) sampleCluster = Inl SliceBounds
   \<and> isl (BroadcastRandomly (\<lambda>c. None) (\<lambda>i. 0) [7] (- 1) sampleCluster)
   \<and> \<not> isl (BroadcastRandomly_sample (\<lambda>i. 0) 2 sampleCluster)"
proof -
  have ph: "peersHaveIds sampleCluster"
    by code_simp
  have neg: "sint (- 1 :: GoInt) < 0" and nn: "0 \<le> sint (2 :: GoInt)"
    by simp_all
  show ?thesis
    using ph neg nn
      BroadcastRandomly_slice_needs_nonnegative_K [of "- 1" "\<lambda>i. 0" sampleCluster "\<lambda>c. None" "[7]"]
      BroadcastRandomly_slice_needs_nonnegative_K [of 2 "\<lambda>i. 0" sampleCluster "\<lambda>c. None" "[7]"]
    by simp
qed

end
